theory Spec2Isabelle
  imports Main
begin

section \<open>Values of the JavaScript runtime\<close>

text \<open>
  The result of \<open>JSON.parse\<close>. A number is kept as the text that the runtime's
  number-to-string conversion gives for it, so \<open>0\<close> and \<open>-0\<close> are both \<open>''0''\<close> and two
  numbers are \<open>===\<close> exactly when their texts are equal. An object is the list of its own
  properties. \<open>undefined\<close> is \<open>None\<close> of \<open>json option\<close>.
\<close>

datatype json =
    JNull
  | JBool bool
  | JNum string
  | JStr string
  | JArr "json list"
  | JObj "(string \<times> json) list"

datatype js_error = SyntaxError | TypeError | Error string

text \<open>Truthiness, as \<open>!x\<close> and \<open>x && y\<close> test it.\<close>

fun truthy :: "json \<Rightarrow> bool" where
  "truthy JNull = False"
| "truthy (JBool b) = b"
| "truthy (JNum n) = (n \<noteq> ''0'')"
| "truthy (JStr s) = (s \<noteq> [])"
| "truthy (JArr xs) = True"
| "truthy (JObj kvs) = True"

fun truthy_opt :: "json option \<Rightarrow> bool" where
  "truthy_opt None = False"
| "truthy_opt (Some v) = truthy v"

text \<open>
  \<open>v.name\<close> for one of the names \<open>command\<close>, \<open>correlationData\<close>, \<open>payload\<close>, \<open>state\<close>,
  \<open>agentVersion\<close>, \<open>snapshot\<close>, \<open>project\<close>, \<open>settings\<close>, none of which is a property of the
  prototypes of arrays, strings, numbers or booleans: reading it from \<open>null\<close> throws, from an
  object without it, or from any other value, gives \<open>undefined\<close>.
\<close>

fun get_prop :: "json \<Rightarrow> string \<Rightarrow> js_error + json option" where
  "get_prop JNull name = Inl TypeError"
| "get_prop (JObj kvs) name = Inr (map_of kvs name)"
| "get_prop v name = Inr None"

text \<open>\<open>Object.hasOwn(v, name)\<close>, for the same names; it throws on \<open>null\<close>.\<close>

fun hasOwn :: "json \<Rightarrow> string \<Rightarrow> js_error + bool" where
  "hasOwn JNull name = Inl TypeError"
| "hasOwn (JObj kvs) name = Inr (map_of kvs name \<noteq> None)"
| "hasOwn v name = Inr False"

text \<open>
  The conversion of a value to a property key, \<open>obj[v]\<close>: a string is its own key, an array
  joins the keys of its elements with commas (\<open>null\<close> elements give the empty text).
\<close>

fun intercalate :: "string \<Rightarrow> string list \<Rightarrow> string" where
  "intercalate sep [] = []"
| "intercalate sep [x] = x"
| "intercalate sep (x # y # ys) = x @ sep @ intercalate sep (y # ys)"

fun toPropertyKey :: "json \<Rightarrow> string" where
  "toPropertyKey JNull = ''null''"
| "toPropertyKey (JBool b) = (if b then ''true'' else ''false'')"
| "toPropertyKey (JNum n) = n"
| "toPropertyKey (JStr s) = s"
| "toPropertyKey (JArr xs) =
     intercalate '','' (map (\<lambda>x. if x = JNull then [] else toPropertyKey x) xs)"
| "toPropertyKey (JObj kvs) = ''[object Object]''"

section \<open>The device comms handler (forge/comms/devices.js)\<close>

definition DEFAULT_TIMEOUT :: int where
  "DEFAULT_TIMEOUT = 5000"

text \<open>A \<open>ResponseMonitor\<close> object; its \<open>resolve\<close>, \<open>reject\<close> and \<open>timer\<close> members are the
  functions \<open>monitor_resolve\<close>, \<open>monitor_reject\<close> and the entry of \<open>timers\<close> below.\<close>

record monitor =
  command :: string
  deviceId :: string
  teamId :: string
  correlationData :: string
  resolved :: bool
  rejected :: bool
  createdAt :: int
  expiresAt :: int

text \<open>A \<open>CommandMessage\<close> object.\<close>

record commandMessage =
  msg_command :: string
  msg_deviceId :: string
  msg_teamId :: string
  msg_correlationData :: string
  msg_createdAt :: int
  msg_expiresAt :: int
  msg_responseTopic :: string
  msg_payload :: json

text \<open>The payload of the "update" command, built by \<open>sendDeviceUpdateCommand\<close>.\<close>

record updatePayload =
  upd_project :: json
  upd_snapshot :: json
  upd_settings :: json
  upd_mode :: string
  upd_licensed :: bool

text \<open>What \<open>sendCommand\<close> is given as payload: the empty string, a command message or an
  update payload.\<close>

datatype payload = EmptyPayload | CommandData commandMessage | UpdateData updatePayload

text \<open>One call of \<open>client.publish\<close>: the topic and the object \<open>{command, ...payload}\<close>
  before it is serialised.\<close>

record published =
  pub_topic :: string
  pub_command :: string
  pub_payload :: payload

datatype promise = Pending | Fulfilled json | Rejected js_error

datatype timestamp = At int | CURRENT_TIMESTAMP

text \<open>A row of the Device table with the associations that \<open>Device.byId\<close> loads.\<close>

record device =
  hashid :: string
  Team_hashid :: string
  Project_id :: "string option"
  targetSnapshot_hashid :: "string option"
  settingsHash :: "string option"
  mode :: string
  dev_state :: "json option"
  agentVersion :: "json option"
  lastSeenAt :: timestamp
  activeSnapshotId :: "nat list option"
  currentSnapshot :: "nat option"

record logEvent =
  log_id :: string
  logs :: string

text \<open>An entry of \<open>deviceLogClients\<close>; the set of sockets in insertion order.\<close>

record logSession =
  cache :: "logEvent list"
  sockets :: "nat list"

text \<open>
  The state of a \<open>DeviceCommsHandler\<close> and of what it acts on. Monitor objects live in a
  store, addressed by the order of their creation: \<open>inFlightCommands\<close>, the closures of the
  promise and the timer callback all refer to the same object. \<open>timers\<close> holds the pending
  timeouts (monitor to delay), \<open>promises\<close> the promise returned for each monitor,
  \<open>publications\<close> the calls of \<open>client.publish\<close> in order, \<open>socket_sent\<close> what was sent to
  each viewer socket, \<open>devices\<close> the Device table as \<open>Device.byId\<close> reads it.
\<close>

record handler =
  monitors :: "nat \<rightharpoonup> monitor"
  nextMonitor :: nat
  promises :: "nat \<rightharpoonup> promise"
  timers :: "nat \<rightharpoonup> int"
  inFlightCommands :: "string \<rightharpoonup> nat"
  deviceLogClients :: "string \<rightharpoonup> logSession"
  publications :: "published list"
  socket_sent :: "nat \<Rightarrow> string list"
  devices :: "string \<rightharpoonup> device"

text \<open>What the handler is given by the application: \<open>JSON.parse\<close> (\<open>None\<close> when it throws
  \<open>SyntaxError\<close>), the snapshot model's \<open>decodeHashid\<close> and \<open>byId\<close>, \<open>app.license.active()\<close>
  and whether \<open>app.comms\<close> is set.\<close>

record env =
  JSON_parse :: "string \<Rightarrow> json option"
  decodeHashid :: "json \<Rightarrow> nat list"
  snapshot_byId :: "json \<Rightarrow> bool"
  license_active :: bool
  app_comms :: bool

definition new_handler :: "(string \<rightharpoonup> device) \<Rightarrow> handler" where
  "new_handler db =
     \<lparr>monitors = Map.empty, nextMonitor = 0, promises = Map.empty, timers = Map.empty,
      inFlightCommands = Map.empty, deviceLogClients = Map.empty, publications = [],
      socket_sent = (\<lambda>_. []), devices = db\<rparr>"

subsection \<open>sendCommand\<close>

definition sendCommand :: "string \<Rightarrow> string \<Rightarrow> string \<Rightarrow> payload \<Rightarrow> handler \<Rightarrow> handler" where
  "sendCommand team dev cmd p s =
     s\<lparr>publications := publications s @
          [\<lparr>pub_topic = ''ff/v1/'' @ team @ ''/d/'' @ dev @ ''/command'',
            pub_command = cmd, pub_payload = p\<rparr>]\<rparr>"

subsection \<open>sendCommandAwaitReply and the monitor's closures\<close>

text \<open>The options argument is the value of its \<open>timeout\<close> member when that is a number, and
  \<open>None\<close> otherwise (no options, no member, or a member that is not a number).\<close>

definition sanitise_timeout :: "int option \<Rightarrow> int" where
  "sanitise_timeout opt =
     (case opt of Some t \<Rightarrow> if t > 0 then t else DEFAULT_TIMEOUT | None \<Rightarrow> DEFAULT_TIMEOUT)"

text \<open>\<open>newResponseMonitor\<close>, given the values of \<open>Date.now()\<close> and \<open>uuidv4()\<close>.
  \<open>now + options?.timeout || DEFAULT_TIMEOUT\<close> adds first.\<close>

definition newResponseMonitor :: "int \<Rightarrow> string \<Rightarrow> string \<Rightarrow> string \<Rightarrow> string \<Rightarrow> int \<Rightarrow> monitor" where
  "newResponseMonitor now uuid cmd dev team timeout =
     \<lparr>command = cmd, deviceId = dev, teamId = team, correlationData = uuid,
      resolved = False, rejected = False, createdAt = now,
      expiresAt = (if now + timeout = 0 then DEFAULT_TIMEOUT else now + timeout)\<rparr>"

definition newCommandMessage :: "monitor \<Rightarrow> json \<Rightarrow> commandMessage" where
  "newCommandMessage cmr p =
     \<lparr>msg_command = command cmr, msg_deviceId = deviceId cmr, msg_teamId = teamId cmr,
      msg_correlationData = correlationData cmr, msg_createdAt = createdAt cmr,
      msg_expiresAt = expiresAt cmr,
      msg_responseTopic = ''ff/v1/'' @ teamId cmr @ ''/d/'' @ deviceId cmr @ ''/response'',
      msg_payload = p\<rparr>"

text \<open>Settling a promise: only a pending promise changes.\<close>

definition settle :: "nat \<Rightarrow> promise \<Rightarrow> (nat \<rightharpoonup> promise) \<Rightarrow> (nat \<rightharpoonup> promise)" where
  "settle r v ps = (case ps r of Some Pending \<Rightarrow> ps(r \<mapsto> v) | _ \<Rightarrow> ps)"

text \<open>\<open>inFlightCommand.resolve\<close> and \<open>inFlightCommand.reject\<close> of the monitor at \<open>r\<close>.\<close>

definition monitor_resolve :: "nat \<Rightarrow> json \<Rightarrow> handler \<Rightarrow> handler" where
  "monitor_resolve r p s =
     (case monitors s r of
        None \<Rightarrow> s
      | Some mon \<Rightarrow>
          s\<lparr>monitors := (monitors s)(r \<mapsto> mon\<lparr>resolved := True\<rparr>),
            timers := (timers s)(r := None),
            promises := settle r (Fulfilled p) (promises s),
            inFlightCommands := (inFlightCommands s)(correlationData mon := None)\<rparr>)"

definition monitor_reject :: "nat \<Rightarrow> js_error \<Rightarrow> handler \<Rightarrow> handler" where
  "monitor_reject r err s =
     (case monitors s r of
        None \<Rightarrow> s
      | Some mon \<Rightarrow>
          s\<lparr>monitors := (monitors s)(r \<mapsto> mon\<lparr>rejected := True\<rparr>),
            timers := (timers s)(r := None),
            promises := settle r (Rejected err) (promises s),
            inFlightCommands := (inFlightCommands s)(correlationData mon := None)\<rparr>)"

text \<open>The callback given to \<open>setTimeout\<close>.\<close>

definition timer_callback :: "nat \<Rightarrow> handler \<Rightarrow> handler" where
  "timer_callback r s =
     (case monitors s r of
        None \<Rightarrow> s
      | Some mon \<Rightarrow>
          if resolved mon then s
          else if rejected mon then s
          else monitor_reject r (Error ''Command timed out'') s)"

text \<open>The runtime fires a timer that is still pending, once.\<close>

definition fire_timer :: "nat \<Rightarrow> handler \<Rightarrow> handler" where
  "fire_timer r s =
     (case timers s r of
        None \<Rightarrow> s
      | Some delay \<Rightarrow> timer_callback r (s\<lparr>timers := (timers s)(r := None)\<rparr>))"

text \<open>\<open>sendCommandAwaitReply\<close> returns the promise, which is the one stored at the new
  monitor's address.\<close>

definition sendCommandAwaitReply ::
  "int \<Rightarrow> string \<Rightarrow> string \<Rightarrow> string \<Rightarrow> string \<Rightarrow> json \<Rightarrow> int option \<Rightarrow> handler \<Rightarrow> nat \<times> handler" where
  "sendCommandAwaitReply now uuid team dev cmd p options s =
     (let timeout = sanitise_timeout options;
          inFlightCommand = newResponseMonitor now uuid cmd dev team timeout;
          r = nextMonitor s;
          s1 = s\<lparr>monitors := (monitors s)(r \<mapsto> inFlightCommand),
                 nextMonitor := Suc r,
                 promises := (promises s)(r \<mapsto> Pending),
                 timers := (timers s)(r \<mapsto> timeout),
                 inFlightCommands := (inFlightCommands s)(correlationData inFlightCommand \<mapsto> r)\<rparr>;
          commandData = newCommandMessage inFlightCommand p
      in (r, sendCommand team dev cmd (CommandData commandData) s1))"

subsection \<open>handleCommandResponse\<close>

record response =
  response_id :: string
  response_message :: string

text \<open>
  \<open>response\<close> is the object the comms client emits: an \<open>id\<close> and a \<open>message\<close> string, so
  \<open>response.correlationData\<close> is \<open>undefined\<close> and the final \<open>delete\<close> removes the key
  \<open>''undefined''\<close>. An exception leaves the handler as \<open>Inl\<close>.
\<close>

definition handleCommandResponse :: "env \<Rightarrow> response \<Rightarrow> handler \<Rightarrow> js_error + handler" where
  "handleCommandResponse e response s =
     (if response_id response \<noteq> [] then
        (case JSON_parse e (response_message response) of
           None \<Rightarrow> Inl SyntaxError
         | Some message \<Rightarrow>
            (case get_prop message ''command'' of
               Inl err \<Rightarrow> Inl err
             | Inr cmd \<Rightarrow>
                (case (get_prop message ''correlationData'', get_prop message ''payload'') of
                   (Inr (Some cd), Inr (Some p)) \<Rightarrow>
                     if \<not> truthy_opt cmd \<or> \<not> truthy cd \<or> \<not> truthy p then Inr s
                     else
                       (case devices s (response_id response) of
                          None \<Rightarrow> Inr s
                        | Some device \<Rightarrow>
                           (case inFlightCommands s (toPropertyKey cd) of
                              None \<Rightarrow> Inr s
                            | Some r \<Rightarrow>
                               (case monitors s r of
                                  None \<Rightarrow> Inr s
                                | Some inFlightCommand \<Rightarrow>
                                    if cmd = Some (JStr (command inFlightCommand)) then
                                      (let s1 = monitor_resolve r p s
                                       in Inr (s1\<lparr>inFlightCommands :=
                                                 (inFlightCommands s1)(''undefined'' := None)\<rparr>))
                                    else Inr s)))
                 | _ \<Rightarrow> Inr s)))
      else Inr s)"

subsection \<open>streamLogs and forwardLog\<close>

definition socket_send :: "string \<Rightarrow> nat \<Rightarrow> handler \<Rightarrow> handler" where
  "socket_send line sock s = s\<lparr>socket_sent := (socket_sent s)(sock := socket_sent s sock @ [line])\<rparr>"

definition streamLogs :: "string \<Rightarrow> string \<Rightarrow> nat \<Rightarrow> handler \<Rightarrow> handler" where
  "streamLogs team dev sock s =
     (let s1 = (case deviceLogClients s dev of
                  None \<Rightarrow> sendCommand team dev ''startLog'' EmptyPayload
                            (s\<lparr>deviceLogClients :=
                                 (deviceLogClients s)(dev \<mapsto> \<lparr>cache = [], sockets = []\<rparr>)\<rparr>)
                | Some info \<Rightarrow> s)
      in (case deviceLogClients s1 dev of
            None \<Rightarrow> s1
          | Some info \<Rightarrow>
              fold (\<lambda>l. socket_send (logs l) sock) (cache info)
                (s1\<lparr>deviceLogClients := (deviceLogClients s1)
                      (dev \<mapsto> info\<lparr>sockets := (if sock \<in> set (sockets info) then sockets info
                                                else sockets info @ [sock])\<rparr>)\<rparr>)))"

text \<open>The socket's \<open>close\<close> listener installed by \<open>streamLogs\<close>.\<close>

definition socket_close :: "string \<Rightarrow> string \<Rightarrow> nat \<Rightarrow> handler \<Rightarrow> handler" where
  "socket_close team dev sock s =
     (case deviceLogClients s dev of
        None \<Rightarrow> s
      | Some info \<Rightarrow>
          (let remaining = removeAll sock (sockets info)
           in if remaining = [] then
                sendCommand team dev ''stopLog'' EmptyPayload
                  (s\<lparr>deviceLogClients := (deviceLogClients s)(dev := None)\<rparr>)
              else s\<lparr>deviceLogClients := (deviceLogClients s)(dev \<mapsto> info\<lparr>sockets := remaining\<rparr>)\<rparr>))"

definition forwardLog :: "logEvent \<Rightarrow> handler \<Rightarrow> handler" where
  "forwardLog log s =
     (case deviceLogClients s (log_id log) of
        Some socketInfo \<Rightarrow>
          (let pushed = cache socketInfo @ [log];
               kept = (if length pushed > 10 then tl pushed else pushed)
           in fold (socket_send (logs log)) (sockets socketInfo)
                (s\<lparr>deviceLogClients :=
                     (deviceLogClients s)(log_id log \<mapsto> socketInfo\<lparr>cache := kept\<rparr>)\<rparr>))
      | None \<Rightarrow>
          (case devices s (log_id log) of
             Some device \<Rightarrow> sendCommand (Team_hashid device) (log_id log) ''stopLog'' EmptyPayload s
           | None \<Rightarrow> s))"

subsection \<open>updateState and sendDeviceUpdateCommand (the Device controller)\<close>

text \<open>A property of a value already known not to be \<open>null\<close>.\<close>

definition read_prop :: "json \<Rightarrow> string \<Rightarrow> json option" where
  "read_prop v name = (case get_prop v name of Inr x \<Rightarrow> x | Inl err \<Rightarrow> None)"

text \<open>\<open>x || null\<close> for a string that may be missing.\<close>

definition or_null :: "string option \<Rightarrow> json" where
  "or_null x = (case x of Some v \<Rightarrow> if v \<noteq> [] then JStr v else JNull | None \<Rightarrow> JNull)"

text \<open>\<open>updateState\<close> returns the device instance as it is saved.\<close>

definition updateState :: "env \<Rightarrow> device \<Rightarrow> json \<Rightarrow> js_error + device" where
  "updateState e device st =
     (case get_prop st ''state'' of
        Inl err \<Rightarrow> Inl err
      | Inr st_state \<Rightarrow>
         (let d1 = (if truthy_opt st_state then device\<lparr>dev_state := st_state\<rparr> else device);
              d2 = (if truthy_opt (read_prop st ''agentVersion'')
                    then d1\<lparr>agentVersion := read_prop st ''agentVersion''\<rparr> else d1);
              d3 = d2\<lparr>lastSeenAt := CURRENT_TIMESTAMP\<rparr>
          in (case read_prop st ''snapshot'' of
                None \<Rightarrow>
                  Inr (if currentSnapshot d3 \<noteq> None then d3\<lparr>activeSnapshotId := None\<rparr> else d3)
              | Some snapshot \<Rightarrow>
                  if \<not> truthy snapshot then
                    Inr (if currentSnapshot d3 \<noteq> None then d3\<lparr>activeSnapshotId := None\<rparr> else d3)
                  else
                    (let snapshotId = decodeHashid e snapshot
                     in if length snapshotId > 0 then
                          (if snapshot_byId e snapshot
                           then Inr (d3\<lparr>activeSnapshotId := Some snapshotId\<rparr>)
                           else Inr d3)
                        else Inr d3))))"

definition sendDeviceUpdateCommand :: "env \<Rightarrow> device \<Rightarrow> handler \<Rightarrow> handler" where
  "sendDeviceUpdateCommand e device s =
     (if app_comms e then
        sendCommand (Team_hashid device) (hashid device) ''update''
          (UpdateData \<lparr>upd_project = or_null (Project_id device),
                       upd_snapshot = or_null (targetSnapshot_hashid device),
                       upd_settings = or_null (settingsHash device),
                       upd_mode = mode device,
                       upd_licensed = license_active e\<rparr>) s
      else s)"

subsection \<open>handleStatus\<close>

record status =
  status_id :: string
  status_status :: string

text \<open>\<open>Object.hasOwn(payload, name) && payload[name] !== expected\<close>, for a payload that is
  not \<open>null\<close>.\<close>

definition differs :: "json \<Rightarrow> string \<Rightarrow> json \<Rightarrow> bool" where
  "differs payload name expected =
     (hasOwn payload name = Inr True \<and> read_prop payload name \<noteq> Some expected)"

text \<open>Everything after the device lookup runs inside \<open>try\<close>: an exception there ends the
  handler with nothing more done.\<close>

definition handleStatus :: "env \<Rightarrow> status \<Rightarrow> handler \<Rightarrow> handler" where
  "handleStatus e status s =
     (if status_id status \<noteq> [] \<and> status_status status \<noteq> [] then
        (case devices s (status_id status) of
           None \<Rightarrow> s
         | Some device \<Rightarrow>
            (case JSON_parse e (status_status status) of
               None \<Rightarrow> s
             | Some payload \<Rightarrow>
                (case updateState e device payload of
                   Inl err \<Rightarrow> s
                 | Inr saved \<Rightarrow>
                    (let s1 = s\<lparr>devices := (devices s)(status_id status \<mapsto> saved)\<rparr>;
                         sendUpdateCommand =
                           (read_prop payload ''state'' = Some (JStr ''unknown'')
                            \<or> differs payload ''project'' (or_null (Project_id saved))
                            \<or> differs payload ''snapshot'' (or_null (targetSnapshot_hashid saved))
                            \<or> differs payload ''settings'' (or_null (settingsHash saved)))
                     in if sendUpdateCommand then sendDeviceUpdateCommand e saved s1 else s1))))
      else s)"

subsection \<open>The handler as a machine\<close>

text \<open>
  Everything that can happen to a handler: the three events of the comms client, a caller
  sending a command (with or without awaiting the reply), a viewer attaching or closing,
  and the runtime firing a timer.
\<close>

datatype event =
    StatusEvent status
  | LogEvent logEvent
  | ResponseEvent response
  | AwaitReply int string string string string json "int option"
  | Command string string string payload
  | TimerFires nat
  | StreamLogs string string nat
  | SocketCloses string string nat

fun step :: "env \<Rightarrow> event \<Rightarrow> handler \<Rightarrow> js_error + handler" where
  "step e (StatusEvent st) s = Inr (handleStatus e st s)"
| "step e (LogEvent l) s = Inr (forwardLog l s)"
| "step e (ResponseEvent r) s = handleCommandResponse e r s"
| "step e (AwaitReply now uuid team dev cmd p options) s =
     Inr (snd (sendCommandAwaitReply now uuid team dev cmd p options s))"
| "step e (Command team dev cmd p) s = Inr (sendCommand team dev cmd p s)"
| "step e (TimerFires r) s = Inr (fire_timer r s)"
| "step e (StreamLogs team dev sock) s = Inr (streamLogs team dev sock s)"
| "step e (SocketCloses team dev sock) s = Inr (socket_close team dev sock s)"

text \<open>A run stops at the first event whose handler throws.\<close>

fun run :: "env \<Rightarrow> event list \<Rightarrow> handler \<Rightarrow> js_error + handler" where
  "run e [] s = Inr s"
| "run e (ev # evs) s = (case step e ev s of Inl err \<Rightarrow> Inl err | Inr s' \<Rightarrow> run e evs s')"

section \<open>The topic access control evaluator (forge/comms/aclManager.js)\<close>

text \<open>\<open>s.split(c)\<close>: the pieces between the separators, at least one piece.\<close>

fun split_on :: "char \<Rightarrow> string \<Rightarrow> string list" where
  "split_on c [] = [[]]"
| "split_on c (x # xs) =
     (if x = c then [] # split_on c xs
      else (case split_on c xs of w # ws \<Rightarrow> (x # w) # ws | [] \<Rightarrow> [[x]]))"

text \<open>\<open>xs[i]\<close> of an array whose entries may be \<open>undefined\<close>; out of range is \<open>undefined\<close>.\<close>

definition at :: "'a option list \<Rightarrow> nat \<Rightarrow> 'a option" where
  "at xs i = (if i < length xs then xs ! i else None)"

text \<open>
  A rule: \<open>acl_topic\<close> is \<open>topic.exec\<close> of its regular expression (\<open>None\<close> for no match,
  otherwise the whole match followed by the capture groups), \<open>acl_verify\<close> the name of a
  verify function, \<open>acl_shared\<close> the truthiness of its \<open>shared\<close> member.
\<close>

record acl =
  acl_topic :: "string \<Rightarrow> string option list option"
  acl_verify :: "string option"
  acl_shared :: bool

text \<open>The lookups of the verify functions: \<open>Device.getDeviceProjectId\<close>,
  \<open>Project.getProjectTeamId\<close> and \<open>Team.encodeHashid\<close>.\<close>

record acl_db =
  getDeviceProjectId :: "string option \<Rightarrow> string option"
  getProjectTeamId :: "string option \<Rightarrow> nat option"
  encodeHashid :: "nat \<Rightarrow> string"

text \<open>The verify functions; a result is kept as its truthiness.\<close>

definition checkTeamAndObjectIds :: "string option list \<Rightarrow> string option list \<Rightarrow> bool" where
  "checkTeamAndObjectIds requestParts ids =
     (at requestParts 1 = at ids 1 \<and> at requestParts 2 = at ids 2)"

definition checkTeamId :: "string option list \<Rightarrow> string option list \<Rightarrow> bool" where
  "checkTeamId requestParts ids = (at requestParts 1 = at ids 1)"

definition truthy_str :: "string option \<Rightarrow> bool" where
  "truthy_str x = (case x of Some v \<Rightarrow> v \<noteq> [] | None \<Rightarrow> False)"

definition checkDeviceIsAssigned :: "acl_db \<Rightarrow> string option list \<Rightarrow> string option list \<Rightarrow> bool" where
  "checkDeviceIsAssigned db requestParts ids =
     (if at requestParts 1 \<noteq> at ids 1 then False
      else truthy_str (getDeviceProjectId db (at ids 2)))"

definition checkDeviceAssignedToProject :: "acl_db \<Rightarrow> string option list \<Rightarrow> string option list \<Rightarrow> bool" where
  "checkDeviceAssignedToProject db requestParts ids =
     (if at requestParts 1 \<noteq> at ids 1 then False
      else (let assignedProject = getDeviceProjectId db (at ids 2)
            in truthy_str assignedProject \<and> assignedProject = at requestParts 2))"

definition checkDeviceCanAccessProject :: "acl_db \<Rightarrow> string option list \<Rightarrow> string option list \<Rightarrow> bool" where
  "checkDeviceCanAccessProject db requestParts ids =
     (if at requestParts 1 \<noteq> at ids 1 then False
      else (let assignedProject = getDeviceProjectId db (at ids 2)
            in if \<not> truthy_str assignedProject then False
               else if assignedProject = at requestParts 2 then True
               else (case getProjectTeamId db (at requestParts 2) of
                       None \<Rightarrow> False
                     | Some projectTeamId \<Rightarrow>
                         projectTeamId \<noteq> 0
                         \<and> Some (encodeHashid db projectTeamId) = at requestParts 1)))"

text \<open>
  \<open>verifyFunctions\<close> is an object literal with the five functions above, so
  \<open>verifyFunctions[name]\<close> also finds what \<open>Object.prototype\<close> gives every object. Called as
  \<open>verifyFunctions[name](m, usernameParts)\<close>: \<open>hasOwnProperty\<close> and \<open>propertyIsEnumerable\<close>
  ask whether the match array, as a property key, is one of the five names; \<open>isPrototypeOf\<close>
  is false; \<open>__lookupGetter__\<close> and \<open>__lookupSetter__\<close> return a function only for the key
  \<open>__proto__\<close>; \<open>constructor\<close>, \<open>toString\<close>, \<open>toLocaleString\<close> and \<open>valueOf\<close> return an
  object or a non-empty string; \<open>__defineGetter__\<close> and \<open>__defineSetter__\<close> throw, as their
  second argument is no function; \<open>__proto__\<close> is an object and calling it throws.
  A result is kept as its truthiness.
\<close>

definition own_names :: "string list" where
  "own_names = [''checkTeamAndObjectIds'', ''checkTeamId'', ''checkDeviceIsAssigned'',
                ''checkDeviceAssignedToProject'', ''checkDeviceCanAccessProject'']"

text \<open>The match array as a property key: its entries joined with commas, \<open>undefined\<close>
  entries as the empty text.\<close>

definition match_key :: "string option list \<Rightarrow> string" where
  "match_key m = intercalate '','' (map (\<lambda>x. case x of None \<Rightarrow> [] | Some v \<Rightarrow> v) m)"

definition Object_prototype ::
  "string \<Rightarrow> (string option list \<Rightarrow> string option list \<Rightarrow> js_error + bool) option" where
  "Object_prototype name =
     (if name = ''hasOwnProperty'' \<or> name = ''propertyIsEnumerable''
        then Some (\<lambda>m ids. Inr (match_key m \<in> set own_names))
      else if name = ''isPrototypeOf'' then Some (\<lambda>m ids. Inr False)
      else if name = ''__lookupGetter__'' \<or> name = ''__lookupSetter__''
        then Some (\<lambda>m ids. Inr (match_key m = ''__proto__''))
      else if name = ''constructor'' \<or> name = ''toString'' \<or> name = ''toLocaleString''
              \<or> name = ''valueOf''
        then Some (\<lambda>m ids. Inr True)
      else if name = ''__defineGetter__'' \<or> name = ''__defineSetter__'' \<or> name = ''__proto__''
        then Some (\<lambda>m ids. Inl TypeError)
      else None)"

definition verifyFunctions ::
  "acl_db \<Rightarrow> string \<Rightarrow> (string option list \<Rightarrow> string option list \<Rightarrow> js_error + bool) option" where
  "verifyFunctions db name =
     (if name = ''checkTeamAndObjectIds'' then Some (\<lambda>m ids. Inr (checkTeamAndObjectIds m ids))
      else if name = ''checkTeamId'' then Some (\<lambda>m ids. Inr (checkTeamId m ids))
      else if name = ''checkDeviceIsAssigned''
        then Some (\<lambda>m ids. Inr (checkDeviceIsAssigned db m ids))
      else if name = ''checkDeviceAssignedToProject''
        then Some (\<lambda>m ids. Inr (checkDeviceAssignedToProject db m ids))
      else if name = ''checkDeviceCanAccessProject''
        then Some (\<lambda>m ids. Inr (checkDeviceCanAccessProject db m ids))
      else Object_prototype name)"

text \<open>
  \<open>SHARED_SUB.exec\<close> for \<open>/^\$share\/([^/]+)\/(.*)$/\<close>: the group is the text up to the next
  slash and is not empty; \<open>.\<close> matches no line terminator. Characters are code units below
  256, so the line terminators are line feed and carriage return.
\<close>

definition line_terminator :: "char \<Rightarrow> bool" where
  "line_terminator c = (c = CHR 0x0A \<or> c = CHR 0x0D)"

definition SHARED_SUB_exec :: "string \<Rightarrow> string option list option" where
  "SHARED_SUB_exec t =
     (if take 7 t = ''$share/'' then
        (let shareGroup = takeWhile (\<lambda>c. c \<noteq> CHR ''/'') (drop 7 t);
             rest = dropWhile (\<lambda>c. c \<noteq> CHR ''/'') (drop 7 t)
         in if shareGroup \<noteq> [] \<and> rest \<noteq> [] \<and> \<not> list_ex line_terminator (tl rest)
            then Some [Some t, Some shareGroup, Some (tl rest)]
            else None)
      else None)"

text \<open>
  \<open>exec\<close> for the expressions of the core rules,
  \<open>/^ff\/v1\/[^/]+\/K\/[^/]+\/M$/\<close> and, with capture groups,
  \<open>/^ff\/v1\/([^/]+)\/K\/([^/]+)\/M$/\<close>: six pieces between slashes, the third and the fifth
  not empty.
\<close>

definition topic_exec :: "bool \<Rightarrow> string \<Rightarrow> string \<Rightarrow> string \<Rightarrow> string option list option" where
  "topic_exec groups ownerKind messageKind t =
     (case split_on CHR ''/'' t of
        [p0, p1, team, kind, owner, msg] \<Rightarrow>
          if p0 = ''ff'' \<and> p1 = ''v1'' \<and> team \<noteq> [] \<and> kind = ownerKind \<and> owner \<noteq> []
             \<and> msg = messageKind
          then Some (Some t # (if groups then [Some team, Some owner] else []))
          else None
      | _ \<Rightarrow> None)"

datatype scope = Forge_platform | Project | Device

datatype action = Sub | Pub

type_synonym acls = "scope \<Rightarrow> action \<Rightarrow> acl list"

definition plain_rule :: "string \<Rightarrow> string \<Rightarrow> acl" where
  "plain_rule ownerKind messageKind =
     \<lparr>acl_topic = topic_exec False ownerKind messageKind, acl_verify = None, acl_shared = False\<rparr>"

definition checked_rule :: "string \<Rightarrow> string \<Rightarrow> string \<Rightarrow> acl" where
  "checked_rule ownerKind messageKind name =
     \<lparr>acl_topic = topic_exec True ownerKind messageKind, acl_verify = Some name,
      acl_shared = False\<rparr>"

fun ACLS :: acls where
  "ACLS Forge_platform Sub =
     [plain_rule ''l'' ''status'', plain_rule ''d'' ''status'', plain_rule ''d'' ''logs'',
      plain_rule ''d'' ''response'']"
| "ACLS Forge_platform Pub =
     [plain_rule ''l'' ''command'', plain_rule ''d'' ''command'', plain_rule ''p'' ''command'']"
| "ACLS Project Sub = [checked_rule ''l'' ''command'' ''checkTeamAndObjectIds'']"
| "ACLS Project Pub = [checked_rule ''l'' ''status'' ''checkTeamAndObjectIds'']"
| "ACLS Device Sub =
     [checked_rule ''d'' ''command'' ''checkTeamAndObjectIds'',
      checked_rule ''p'' ''command'' ''checkDeviceAssignedToProject'']"
| "ACLS Device Pub =
     [checked_rule ''d'' ''status'' ''checkTeamAndObjectIds'',
      checked_rule ''d'' ''logs'' ''checkTeamAndObjectIds'',
      checked_rule ''d'' ''response'' ''checkTeamAndObjectIds'']"

definition addACL :: "scope \<Rightarrow> action \<Rightarrow> acl \<Rightarrow> acls \<Rightarrow> acls" where
  "addACL sc ac rule A = A(sc := (A sc)(ac := A sc ac @ [rule]))"

text \<open>The rule list for a username, \<open>None\<close> where \<open>verify\<close> returns \<open>false\<close> at once.\<close>

definition select_acls :: "acls \<Rightarrow> string \<Rightarrow> action \<Rightarrow> acl list option" where
  "select_acls A username aclType =
     (if username = ''forge_platform'' then Some (A Forge_platform aclType)
      else if take 8 username = ''project:'' then Some (A Project aclType)
      else if take 7 username = ''device:'' then Some (A Device aclType)
      else None)"

text \<open>What a matching rule decides: the body of \<open>if (m)\<close> in the loop. An exception of
  the called member leaves \<open>verify\<close> as \<open>Inl\<close>.\<close>

definition decide ::
  "acl_db \<Rightarrow> bool \<Rightarrow> acl \<Rightarrow> string option list \<Rightarrow> string option list \<Rightarrow> js_error + bool" where
  "decide db isSharedSub rule m usernameParts =
     (if isSharedSub \<and> \<not> acl_shared rule then Inr False
      else (case acl_verify rule of
              None \<Rightarrow> Inr True
            | Some name \<Rightarrow>
                if name \<noteq> [] then
                  (case verifyFunctions db name of
                     Some f \<Rightarrow> f m usernameParts
                   | None \<Rightarrow> Inr True)
                else Inr True))"

text \<open>The \<open>for\<close> loop over the rule list, \<open>allowed\<close> being \<open>false\<close> before it.\<close>

fun scan ::
  "acl_db \<Rightarrow> bool \<Rightarrow> string \<Rightarrow> string option list \<Rightarrow> acl list \<Rightarrow> js_error + bool" where
  "scan db isSharedSub topic usernameParts [] = Inr False"
| "scan db isSharedSub topic usernameParts (rule # rules) =
     (case acl_topic rule topic of
        Some m \<Rightarrow> decide db isSharedSub rule m usernameParts
      | None \<Rightarrow> scan db isSharedSub topic usernameParts rules)"

definition verify :: "acl_db \<Rightarrow> acls \<Rightarrow> string \<Rightarrow> string \<Rightarrow> int \<Rightarrow> js_error + bool" where
  "verify db A username topic accessLevel =
     (let aclType = (if accessLevel = 2 then Pub else Sub)
      in (case select_acls A username aclType of
            None \<Rightarrow> Inr False
          | Some aclList \<Rightarrow>
              if length aclList > 0 then
                (let usernameParts = map Some (split_on CHR '':'' username)
                 in (case (if aclType = Sub then SHARED_SUB_exec topic else None) of
                       Some sharedSubParts \<Rightarrow>
                         if at sharedSubParts 1 \<noteq> at usernameParts 2 then Inr False
                         else (case at sharedSubParts 2 of
                                 Some inner \<Rightarrow> scan db True inner usernameParts aclList
                               | None \<Rightarrow> Inr False)
                     | None \<Rightarrow> scan db False topic usernameParts aclList))
              else Inr False))"

section \<open>Invariants and sample inputs\<close>

text \<open>What \<open>forwardLog\<close> leaves in the cache: the pushed list, without its head when it
  has more than ten entries.\<close>
definition evict :: "logEvent list \<Rightarrow> logEvent \<Rightarrow> logEvent list" where
  "evict c l = (if length (c @ [l]) > 10 then tl (c @ [l]) else c @ [l])"

text \<open>A step that touches nothing of the request and reply bookkeeping.\<close>
definition same_monitors :: "handler \<Rightarrow> handler \<Rightarrow> bool" where
  "same_monitors s s' \<longleftrightarrow>
     monitors s' = monitors s \<and> nextMonitor s' = nextMonitor s \<and> promises s' = promises s
     \<and> timers s' = timers s \<and> inFlightCommands s' = inFlightCommands s"

text \<open>A step that touches no log session.\<close>
definition same_sessions :: "handler \<Rightarrow> handler \<Rightarrow> bool" where
  "same_sessions s s' \<longleftrightarrow> deviceLogClients s' = deviceLogClients s"

text \<open>Every log session holds at most ten entries.\<close>
definition caches_bounded :: "handler \<Rightarrow> bool" where
  "caches_bounded s \<longleftrightarrow> (\<forall>d info. deviceLogClients s d = Some info \<longrightarrow> length (cache info) \<le> 10)"

text \<open>
  The state of the monitors: an address holds a monitor exactly below \<open>nextMonitor\<close>; a
  monitor is unsettled with a pending promise and a pending timer, or resolved with a
  fulfilled promise, or rejected with the timeout error, and in the last two cases has no
  timer; \<open>inFlightCommands\<close> holds unsettled monitors only, each under its own token.
\<close>
definition monitors_wf :: "handler \<Rightarrow> bool" where
  "monitors_wf s \<longleftrightarrow>
     (\<forall>r. monitors s r = None \<longrightarrow> promises s r = None \<and> timers s r = None)
   \<and> (\<forall>r mon. monitors s r = Some mon \<longrightarrow> r < nextMonitor s)
   \<and> (\<forall>r mon. monitors s r = Some mon \<longrightarrow>
         (\<not> resolved mon \<and> \<not> rejected mon \<and> promises s r = Some Pending \<and> timers s r \<noteq> None)
       \<or> (resolved mon \<and> \<not> rejected mon \<and> (\<exists>p. promises s r = Some (Fulfilled p))
            \<and> timers s r = None)
       \<or> (\<not> resolved mon \<and> rejected mon
            \<and> promises s r = Some (Rejected (Error ''Command timed out'')) \<and> timers s r = None))
   \<and> (\<forall>k r. inFlightCommands s k = Some r \<longrightarrow>
         (\<exists>mon. monitors s r = Some mon \<and> correlationData mon = k
                \<and> \<not> resolved mon \<and> \<not> rejected mon))"

text \<open>From \<open>s\<close> to \<open>s'\<close> a monitor keeps its command and token, a flag once set stays
  set, a timer is never re-armed and a settled promise keeps its value.\<close>
definition evolves :: "handler \<Rightarrow> handler \<Rightarrow> bool" where
  "evolves s s' \<longleftrightarrow>
     (\<forall>r mon. monitors s r = Some mon \<longrightarrow>
        (\<exists>mon'. monitors s' r = Some mon' \<and> command mon' = command mon
           \<and> correlationData mon' = correlationData mon
           \<and> (resolved mon \<longrightarrow> resolved mon') \<and> (rejected mon \<longrightarrow> rejected mon'))
        \<and> (\<forall>t. timers s' r = Some t \<longrightarrow> timers s r = Some t)
        \<and> (\<forall>v. promises s r = Some v \<longrightarrow> v \<noteq> Pending \<longrightarrow> promises s' r = Some v))"

text \<open>The handler after \<open>handleCommandResponse\<close> has resolved the monitor at \<open>r\<close>.\<close>
definition resolved_by :: "nat \<Rightarrow> json \<Rightarrow> handler \<Rightarrow> handler" where
  "resolved_by r p s =
     (let s1 = monitor_resolve r p s
      in s1\<lparr>inFlightCommands := (inFlightCommands s1)(''undefined'' := None)\<rparr>)"

text \<open>A reply that matches the monitor of a command: its message parses, its
  \<open>correlationData\<close> is the key \<open>uuid\<close> and its \<open>command\<close> is \<open>cmd\<close>.\<close>
definition reply_matches :: "env \<Rightarrow> string \<Rightarrow> string \<Rightarrow> response \<Rightarrow> bool" where
  "reply_matches e uuid cmd resp =
     (case JSON_parse e (response_message resp) of
        None \<Rightarrow> False
      | Some message \<Rightarrow>
          (case get_prop message ''correlationData'' of
             Inr (Some token) \<Rightarrow>
               toPropertyKey token = uuid
               \<and> get_prop message ''command'' = Inr (Some (JStr cmd))
           | _ \<Rightarrow> False))"

text \<open>An event that is neither a matching reply nor the firing of the monitor's timer.\<close>
fun undisturbed :: "env \<Rightarrow> string \<Rightarrow> string \<Rightarrow> nat \<Rightarrow> event \<Rightarrow> bool" where
  "undisturbed e uuid cmd r (ResponseEvent resp) = (\<not> reply_matches e uuid cmd resp)"
| "undisturbed e uuid cmd r (TimerFires r') = (r' \<noteq> r)"
| "undisturbed e uuid cmd r ev = True"

text \<open>
  Where \<open>verify\<close> stands when it enters the loop, from the lines before it: \<open>isSharedSub\<close> and
  the topic the rules are matched against; \<open>None\<close> when the share group is refused.
\<close>
definition scanned_topic :: "string \<Rightarrow> string \<Rightarrow> int \<Rightarrow> (bool \<times> string) option" where
  "scanned_topic username topic accessLevel =
     (case (if accessLevel = 2 then None else SHARED_SUB_exec topic) of
        None \<Rightarrow> Some (False, topic)
      | Some sharedSubParts \<Rightarrow>
          if at sharedSubParts 1 \<noteq> at (map Some (split_on CHR '':'' username)) 2 then None
          else map_option (Pair True) (at sharedSubParts 2))"

text \<open>A device, replies, an environment and a handler that has just sent "startEditor".\<close>
definition sample_device :: device where
  "sample_device =
     \<lparr>hashid = ''dev1'', Team_hashid = ''team1'', Project_id = Some ''proj1'',
      targetSnapshot_hashid = Some ''snap1'', settingsHash = Some ''c0ffee'',
      mode = ''autonomous'', dev_state = None, agentVersion = None, lastSeenAt = At 0,
      activeSnapshotId = Some [7], currentSnapshot = Some 7\<rparr>"

definition sample_db :: "string \<rightharpoonup> device" where
  "sample_db = [''dev1'' \<mapsto> sample_device]"

definition reply_text :: string where
  \<open>reply_text = ''{"command":"startEditor","correlationData":"tok-1","payload":true}''\<close>

definition reply_json :: json where
  "reply_json =
     JObj [(''command'', JStr ''startEditor''), (''correlationData'', JStr ''tok-1''),
           (''payload'', JBool True)]"

definition refusal_text :: string where
  \<open>refusal_text = ''{"command":"startEditor","correlationData":"tok-1","payload":false}''\<close>

definition refusal_json :: json where
  "refusal_json =
     JObj [(''command'', JStr ''startEditor''), (''correlationData'', JStr ''tok-1''),
           (''payload'', JBool False)]"

definition unknown_text :: string where
  \<open>unknown_text = ''{"state":"unknown"}''\<close>

definition sample_parse :: "string \<Rightarrow> json option" where
  "sample_parse =
     map_of [(reply_text, reply_json), (refusal_text, refusal_json),
             (unknown_text, JObj [(''state'', JStr ''unknown'')]), (''null'', JNull)]"

definition sample_env :: env where
  "sample_env =
     \<lparr>JSON_parse = sample_parse,
      decodeHashid = (\<lambda>v. if v = JStr ''snap1'' then [7] else if v = JStr ''snap9'' then [9] else []),
      snapshot_byId = (\<lambda>v. v = JStr ''snap1''),
      license_active = True, app_comms = True\<rparr>"

definition sample_sent :: "(string \<rightharpoonup> device) \<Rightarrow> handler" where
  "sample_sent db =
     snd (sendCommandAwaitReply 1000 ''tok-1'' ''team1'' ''dev1'' ''startEditor''
            (JObj [(''token'', JStr ''s3cret'')]) None (new_handler db))"

text \<open>A reply with the token of the command sent but with another command, an environment
  that parses it, and a handler that has sent "startEditor" with a timeout of 250.\<close>
definition stale_text :: string where
  \<open>stale_text = ''{"command":"upload","correlationData":"tok-1","payload":true}''\<close>

definition stale_json :: json where
  "stale_json =
     JObj [(''command'', JStr ''upload''), (''correlationData'', JStr ''tok-1''),
           (''payload'', JBool True)]"

definition stale_env :: env where
  "stale_env =
     sample_env\<lparr>JSON_parse := (\<lambda>t. if t = stale_text then Some stale_json else sample_parse t)\<rparr>"

definition quick_sent :: handler where
  "quick_sent =
     snd (sendCommandAwaitReply 1000 ''tok-1'' ''team1'' ''dev1'' ''startEditor''
            (JObj [(''token'', JStr ''s3cret'')]) (Some 250) (new_handler sample_db))"

definition sample_logs :: "logEvent list" where
  "sample_logs = map (\<lambda>n. \<lparr>log_id = ''dev1'', logs = replicate n CHR ''x''\<rparr>) [0..<11]"

definition sample_acl_db :: acl_db where
  "sample_acl_db =
     \<lparr>getDeviceProjectId = (\<lambda>d. if d = Some ''dev1'' then Some ''proj1'' else None),
      getProjectTeamId = (\<lambda>p. if p = Some ''proj1'' then Some 1 else None),
      encodeHashid = (\<lambda>n. if n = 1 then ''team1'' else ''other'')\<rparr>"

text \<open>A rule registered after the core rules that would let a device subscribe to the
  command topic of any device.\<close>
definition late_rule :: acl where
  "late_rule = \<lparr>acl_topic = topic_exec False ''d'' ''command'', acl_verify = None,
                 acl_shared = False\<rparr>"

section \<open>Properties\<close>

subsection \<open>What each operation leaves alone\<close>

lemma sendCommand_frame [simp]:
  "monitors (sendCommand t d c p s) = monitors s"
  "nextMonitor (sendCommand t d c p s) = nextMonitor s"
  "promises (sendCommand t d c p s) = promises s"
  "timers (sendCommand t d c p s) = timers s"
  "inFlightCommands (sendCommand t d c p s) = inFlightCommands s"
  "deviceLogClients (sendCommand t d c p s) = deviceLogClients s"
  "devices (sendCommand t d c p s) = devices s"
  "socket_sent (sendCommand t d c p s) = socket_sent s"
  by (simp_all add: sendCommand_def)

lemma fold_socket_send_frame [simp]:
  "monitors (fold (\<lambda>x. socket_send (f x) (g x)) xs s) = monitors s"
  "nextMonitor (fold (\<lambda>x. socket_send (f x) (g x)) xs s) = nextMonitor s"
  "promises (fold (\<lambda>x. socket_send (f x) (g x)) xs s) = promises s"
  "timers (fold (\<lambda>x. socket_send (f x) (g x)) xs s) = timers s"
  "inFlightCommands (fold (\<lambda>x. socket_send (f x) (g x)) xs s) = inFlightCommands s"
  "deviceLogClients (fold (\<lambda>x. socket_send (f x) (g x)) xs s) = deviceLogClients s"
  "devices (fold (\<lambda>x. socket_send (f x) (g x)) xs s) = devices s"
  "publications (fold (\<lambda>x. socket_send (f x) (g x)) xs s) = publications s"
  by (induction xs arbitrary: s; simp add: socket_send_def)+

lemma fold_socket_send_frame' [simp]:
  "monitors (fold (socket_send l) xs s) = monitors s"
  "nextMonitor (fold (socket_send l) xs s) = nextMonitor s"
  "promises (fold (socket_send l) xs s) = promises s"
  "timers (fold (socket_send l) xs s) = timers s"
  "inFlightCommands (fold (socket_send l) xs s) = inFlightCommands s"
  "deviceLogClients (fold (socket_send l) xs s) = deviceLogClients s"
  "devices (fold (socket_send l) xs s) = devices s"
  "publications (fold (socket_send l) xs s) = publications s"
  using fold_socket_send_frame [where f = "\<lambda>_. l" and g = "\<lambda>x. x"] by simp_all

lemma forwardLog_session:
  "deviceLogClients s (log_id l) = Some info \<Longrightarrow>
   deviceLogClients (forwardLog l s) = (deviceLogClients s)(log_id l \<mapsto> info\<lparr>cache := evict (cache info) l\<rparr>)"
  by (simp add: forwardLog_def evict_def Let_def)

lemma forwardLog_no_session:
  "deviceLogClients s (log_id l) = None \<Longrightarrow> deviceLogClients (forwardLog l s) = deviceLogClients s"
  by (simp add: forwardLog_def split: option.splits)

lemma same_monitors_refl [simp]: "same_monitors s s"
  by (simp add: same_monitors_def)

lemma same_monitors_sendCommand [simp]: "same_monitors s (sendCommand t d c p s)"
  by (simp add: same_monitors_def)

lemma same_monitors_handleStatus: "same_monitors s (handleStatus e st s)"
  by (simp add: same_monitors_def handleStatus_def sendDeviceUpdateCommand_def Let_def
      split: option.splits sum.splits)

lemma same_monitors_forwardLog: "same_monitors s (forwardLog l s)"
  by (simp add: same_monitors_def forwardLog_def Let_def split: option.splits)

lemma same_monitors_streamLogs: "same_monitors s (streamLogs t d k s)"
  by (simp add: same_monitors_def streamLogs_def Let_def split: option.splits)

lemma same_monitors_socket_close: "same_monitors s (socket_close t d k s)"
  by (simp add: same_monitors_def socket_close_def Let_def split: option.splits)

lemma same_sessions_handleStatus: "same_sessions s (handleStatus e st s)"
  by (simp add: same_sessions_def handleStatus_def sendDeviceUpdateCommand_def Let_def
      split: option.splits sum.splits)

lemma same_sessions_fire_timer: "same_sessions s (fire_timer r s)"
  by (simp add: same_sessions_def fire_timer_def timer_callback_def monitor_reject_def
      split: option.splits)

lemma same_sessions_send: "same_sessions s (snd (sendCommandAwaitReply n u t d c p opts s))"
  by (simp add: same_sessions_def sendCommandAwaitReply_def Let_def)

lemma same_sessions_response: "handleCommandResponse e r s = Inr s' \<Longrightarrow> same_sessions s s'"
  by (auto simp add: same_sessions_def handleCommandResponse_def monitor_resolve_def Let_def
      split: option.splits sum.splits if_splits prod.splits)

subsection \<open>The log cache\<close>

lemma evict_length: "length c \<le> 10 \<Longrightarrow> length (evict c l) \<le> 10"
  by (simp add: evict_def)

lemma evict_suffix:
  "length c \<le> 10 \<Longrightarrow> evict c l = drop (length (c @ [l]) - 10) (c @ [l])"
proof (cases "length c = 10")
  case True
  then have "c \<noteq> []" by auto
  then show ?thesis using True by (simp add: evict_def drop_Suc)
next
  case False
  assume "length c \<le> 10"
  with False show ?thesis by (simp add: evict_def)
qed

lemma last_n_append:
  "drop (length (drop (length xs - n) xs @ ys) - n) (drop (length xs - n) xs @ ys)
   = drop (length (xs @ ys) - n) (xs @ ys)"
proof (cases "length xs \<le> n")
  case True
  then show ?thesis by simp
next
  case False
  then have k: "length xs - (length xs - n) = n" by simp
  have a: "length xs - n + length ys = length xs + length ys - n" using False by simp
  show ?thesis using False by (simp add: k a add.commute)
qed

lemma caches_bounded_same: "caches_bounded s \<Longrightarrow> same_sessions s s' \<Longrightarrow> caches_bounded s'"
  by (simp add: caches_bounded_def same_sessions_def)

lemma caches_bounded_forwardLog: "caches_bounded s \<Longrightarrow> caches_bounded (forwardLog l s)"
proof (cases "deviceLogClients s (log_id l)")
  case None
  assume "caches_bounded s"
  then show ?thesis using forwardLog_no_session [OF None] by (simp add: caches_bounded_def)
next
  case (Some info)
  assume "caches_bounded s"
  then show ?thesis using Some forwardLog_session [OF Some] evict_length [of "cache info" l]
    by (auto simp add: caches_bounded_def)
qed

lemma caches_bounded_streamLogs: "caches_bounded s \<Longrightarrow> caches_bounded (streamLogs t d k s)"
  by (auto simp add: caches_bounded_def streamLogs_def Let_def split: option.splits if_splits)

lemma caches_bounded_socket_close: "caches_bounded s \<Longrightarrow> caches_bounded (socket_close t d k s)"
  by (auto simp add: caches_bounded_def socket_close_def Let_def split: option.splits if_splits)

lemma caches_bounded_step:
  "caches_bounded s \<Longrightarrow> step e ev s = Inr s' \<Longrightarrow> caches_bounded s'"
proof (cases ev)
  case (StatusEvent st)
  assume "caches_bounded s" "step e ev s = Inr s'"
  then show ?thesis using StatusEvent caches_bounded_same [OF _ same_sessions_handleStatus] by auto
next
  case (LogEvent l)
  assume "caches_bounded s" "step e ev s = Inr s'"
  then show ?thesis using LogEvent caches_bounded_forwardLog by auto
next
  case (ResponseEvent r)
  assume "caches_bounded s" "step e ev s = Inr s'"
  then show ?thesis using ResponseEvent caches_bounded_same same_sessions_response by auto
next
  case (AwaitReply n u t d c p opts)
  assume "caches_bounded s" "step e ev s = Inr s'"
  then show ?thesis using AwaitReply caches_bounded_same [OF _ same_sessions_send] by auto
next
  case (Command t d c p)
  assume "caches_bounded s" "step e ev s = Inr s'"
  then show ?thesis using Command by (auto simp add: caches_bounded_def)
next
  case (TimerFires r)
  assume "caches_bounded s" "step e ev s = Inr s'"
  then show ?thesis using TimerFires caches_bounded_same [OF _ same_sessions_fire_timer] by auto
next
  case (StreamLogs t d k)
  assume "caches_bounded s" "step e ev s = Inr s'"
  then show ?thesis using StreamLogs caches_bounded_streamLogs by auto
next
  case (SocketCloses t d k)
  assume "caches_bounded s" "step e ev s = Inr s'"
  then show ?thesis using SocketCloses caches_bounded_socket_close by auto
qed

lemma caches_bounded_run:
  "caches_bounded s \<Longrightarrow> run e evs s = Inr s' \<Longrightarrow> caches_bounded s'"
proof (induction evs arbitrary: s)
  case Nil
  then show ?case by simp
next
  case (Cons ev evs)
  then show ?case by (auto split: sum.splits dest: caches_bounded_step)
qed

lemma caches_bounded_new: "caches_bounded (new_handler db)"
  by (simp add: caches_bounded_def new_handler_def)

lemma fold_forwardLog_cache:
  "deviceLogClients s d = Some info \<Longrightarrow> length (cache info) \<le> 10 \<Longrightarrow>
   \<forall>l \<in> set ls. log_id l = d \<Longrightarrow>
   \<exists>info'. deviceLogClients (fold forwardLog ls s) d = Some info'
      \<and> sockets info' = sockets info
      \<and> cache info' = drop (length (cache info @ ls) - 10) (cache info @ ls)"
proof (induction ls arbitrary: s info)
  case Nil
  then show ?case by simp
next
  case (Cons l ls)
  let ?info1 = "info\<lparr>cache := evict (cache info) l\<rparr>"
  have id: "log_id l = d" using Cons.prems(3) by simp
  have s1: "deviceLogClients (forwardLog l s) d = Some ?info1"
    using forwardLog_session [of s l info] Cons.prems(1) id by simp
  have len1: "length (cache ?info1) \<le> 10"
    using evict_length [OF Cons.prems(2)] by simp
  from Cons.IH [OF s1 len1] Cons.prems(3)
  obtain info' where a: "deviceLogClients (fold forwardLog ls (forwardLog l s)) d = Some info'"
    and b: "sockets info' = sockets ?info1"
    and c: "cache info' = drop (length (cache ?info1 @ ls) - 10) (cache ?info1 @ ls)"
    by auto
  have "cache ?info1 = drop (length (cache info @ [l]) - 10) (cache info @ [l])"
    using Cons.prems(2) by (simp add: evict_suffix)
  then have "cache info' = drop (length ((cache info @ [l]) @ ls) - 10) ((cache info @ [l]) @ ls)"
    using c last_n_append [of "cache info @ [l]" 10 ls] by simp
  then have "cache info' = drop (length (cache info @ l # ls) - 10) (cache info @ l # ls)"
    by simp
  then show ?case using a b by simp
qed

text \<open>
  C7. In every state the handler reaches from its creation, a device's log session holds at
  most ten entries. Forwarding any number of log events of that device then leaves the last
  ten of the old cache followed by the events, in arrival order, so the oldest go first;
  after eleven events the cache is the events without the first, and its oldest entry is
  the second event.
\<close>
theorem log_cache_bounded_fifo:
  assumes "run e evs (new_handler db) = Inr s"
    and "deviceLogClients s d = Some info"
    and "\<forall>l \<in> set ls. log_id l = d"
  shows "length (cache info) \<le> 10
     \<and> (\<exists>info'. deviceLogClients (fold forwardLog ls s) d = Some info'
          \<and> length (cache info') \<le> 10
          \<and> cache info' = drop (length (cache info @ ls) - 10) (cache info @ ls)
          \<and> (length ls = 11 \<longrightarrow> cache info' = tl ls \<and> hd (cache info') = ls ! 1))"
proof -
  have cb: "caches_bounded s"
    using caches_bounded_run [OF caches_bounded_new assms(1)] .
  then have len: "length (cache info) \<le> 10"
    using assms(2) by (simp add: caches_bounded_def)
  from fold_forwardLog_cache [OF assms(2) len assms(3)]
  obtain info' where a: "deviceLogClients (fold forwardLog ls s) d = Some info'"
    and c: "cache info' = drop (length (cache info @ ls) - 10) (cache info @ ls)"
    by auto
  have l10: "length (cache info') \<le> 10" using c by simp
  have "cache info' = tl ls \<and> hd (cache info') = ls ! 1" if "length ls = 11"
  proof -
    have "cache info' = drop 1 ls" using c that by simp
    then have t: "cache info' = tl ls" by (simp add: drop_Suc)
    moreover have "hd (tl ls) = ls ! 1"
      using that by (cases ls; cases "tl ls") auto
    ultimately show ?thesis by simp
  qed
  then show ?thesis using len a c l10 by auto
qed

subsection \<open>The monitors through every step\<close>

lemma monitors_wf_new: "monitors_wf (new_handler db)"
  by (simp add: monitors_wf_def new_handler_def)

lemma monitors_wf_same: "monitors_wf s \<Longrightarrow> same_monitors s s' \<Longrightarrow> monitors_wf s'"
  by (simp add: monitors_wf_def same_monitors_def)

lemma evolves_same: "same_monitors s s' \<Longrightarrow> evolves s s'"
  by (simp add: evolves_def same_monitors_def)

lemma evolves_trans:
  assumes a: "evolves s s'" and b: "evolves s' s''"
  shows "evolves s s''"
  unfolding evolves_def
proof (intro allI impI)
  fix r mon
  assume m: "monitors s r = Some mon"
  from a m obtain mon' where m': "monitors s' r = Some mon'"
    and c': "command mon' = command mon" "correlationData mon' = correlationData mon"
      "resolved mon \<longrightarrow> resolved mon'" "rejected mon \<longrightarrow> rejected mon'"
    and t': "\<forall>t. timers s' r = Some t \<longrightarrow> timers s r = Some t"
    and p': "\<forall>v. promises s r = Some v \<longrightarrow> v \<noteq> Pending \<longrightarrow> promises s' r = Some v"
    unfolding evolves_def by blast
  from b m' obtain mon'' where m'': "monitors s'' r = Some mon''"
    and c'': "command mon'' = command mon'" "correlationData mon'' = correlationData mon'"
      "resolved mon' \<longrightarrow> resolved mon''" "rejected mon' \<longrightarrow> rejected mon''"
    and t'': "\<forall>t. timers s'' r = Some t \<longrightarrow> timers s' r = Some t"
    and p'': "\<forall>v. promises s' r = Some v \<longrightarrow> v \<noteq> Pending \<longrightarrow> promises s'' r = Some v"
    unfolding evolves_def by blast
  show "(\<exists>mon'. monitors s'' r = Some mon' \<and> command mon' = command mon
           \<and> correlationData mon' = correlationData mon
           \<and> (resolved mon \<longrightarrow> resolved mon') \<and> (rejected mon \<longrightarrow> rejected mon'))
        \<and> (\<forall>t. timers s'' r = Some t \<longrightarrow> timers s r = Some t)
        \<and> (\<forall>v. promises s r = Some v \<longrightarrow> v \<noteq> Pending \<longrightarrow> promises s'' r = Some v)"
    using m'' c' c'' t' t'' p' p'' by simp
qed

lemma wf_none: "monitors_wf s \<Longrightarrow> monitors s r = None \<Longrightarrow> promises s r = None \<and> timers s r = None"
  by (simp add: monitors_wf_def)

lemma wf_lt: "monitors_wf s \<Longrightarrow> monitors s r = Some mon \<Longrightarrow> r < nextMonitor s"
  unfolding monitors_wf_def by blast

lemma wf_fresh: "monitors_wf s \<Longrightarrow> monitors s (nextMonitor s) = None"
  using wf_lt [of s "nextMonitor s"] by (cases "monitors s (nextMonitor s)") auto

lemma wf_phase:
  "monitors_wf s \<Longrightarrow> monitors s r = Some mon \<Longrightarrow>
     (\<not> resolved mon \<and> \<not> rejected mon \<and> promises s r = Some Pending \<and> timers s r \<noteq> None)
   \<or> (resolved mon \<and> \<not> rejected mon \<and> (\<exists>p. promises s r = Some (Fulfilled p)) \<and> timers s r = None)
   \<or> (\<not> resolved mon \<and> rejected mon
        \<and> promises s r = Some (Rejected (Error ''Command timed out'')) \<and> timers s r = None)"
  unfolding monitors_wf_def by blast

lemma wf_inflight:
  "monitors_wf s \<Longrightarrow> inFlightCommands s k = Some r \<Longrightarrow>
   \<exists>mon. monitors s r = Some mon \<and> correlationData mon = k \<and> \<not> resolved mon \<and> \<not> rejected mon"
  unfolding monitors_wf_def by blast

lemma wf_inflight_pending:
  "monitors_wf s \<Longrightarrow> inFlightCommands s k = Some r \<Longrightarrow>
   promises s r = Some Pending \<and> timers s r \<noteq> None"
  using wf_inflight [of s k r] wf_phase [of s r] by blast

lemma send_fields:
  "sendCommandAwaitReply n u t d c p opts s = (r, s') \<Longrightarrow>
   r = nextMonitor s
   \<and> monitors s' = (monitors s)(r \<mapsto> newResponseMonitor n u c d t (sanitise_timeout opts))
   \<and> nextMonitor s' = Suc r
   \<and> promises s' = (promises s)(r \<mapsto> Pending)
   \<and> timers s' = (timers s)(r \<mapsto> sanitise_timeout opts)
   \<and> inFlightCommands s' = (inFlightCommands s)(u \<mapsto> r)
   \<and> deviceLogClients s' = deviceLogClients s \<and> devices s' = devices s"
  by (auto simp add: sendCommandAwaitReply_def Let_def newResponseMonitor_def)

lemma new_monitor_fields [simp]:
  "command (newResponseMonitor n u c d t tm) = c"
  "correlationData (newResponseMonitor n u c d t tm) = u"
  "resolved (newResponseMonitor n u c d t tm) = False"
  "rejected (newResponseMonitor n u c d t tm) = False"
  by (simp_all add: newResponseMonitor_def)

lemma monitors_wf_send:
  assumes wf: "monitors_wf s" and snd: "sendCommandAwaitReply n u t d c p opts s = (r, s')"
  shows "monitors_wf s'"
proof -
  note f = send_fields [OF snd]
  have fresh: "monitors s r = None" using wf_fresh [OF wf] f by simp
  have 1: "\<forall>x. monitors s' x = None \<longrightarrow> promises s' x = None \<and> timers s' x = None"
    using f wf_none [OF wf] by simp
  have 2: "\<forall>x mon. monitors s' x = Some mon \<longrightarrow> x < nextMonitor s'"
    using f wf_lt [OF wf] by (auto simp add: less_Suc_eq split: if_splits)
  have 3: "\<forall>x mon. monitors s' x = Some mon \<longrightarrow>
         (\<not> resolved mon \<and> \<not> rejected mon \<and> promises s' x = Some Pending \<and> timers s' x \<noteq> None)
       \<or> (resolved mon \<and> \<not> rejected mon \<and> (\<exists>p. promises s' x = Some (Fulfilled p))
            \<and> timers s' x = None)
       \<or> (\<not> resolved mon \<and> rejected mon
            \<and> promises s' x = Some (Rejected (Error ''Command timed out'')) \<and> timers s' x = None)"
  proof (intro allI impI)
    fix x mon assume m: "monitors s' x = Some mon"
    show "(\<not> resolved mon \<and> \<not> rejected mon \<and> promises s' x = Some Pending \<and> timers s' x \<noteq> None)
       \<or> (resolved mon \<and> \<not> rejected mon \<and> (\<exists>p. promises s' x = Some (Fulfilled p))
            \<and> timers s' x = None)
       \<or> (\<not> resolved mon \<and> rejected mon
            \<and> promises s' x = Some (Rejected (Error ''Command timed out'')) \<and> timers s' x = None)"
    proof (cases "x = r")
      case True
      then have "mon = newResponseMonitor n u c d t (sanitise_timeout opts)" using m f by simp
      then show ?thesis using True f by simp
    next
      case False
      then have "monitors s x = Some mon" using m f by simp
      from wf_phase [OF wf this] show ?thesis using False f by simp
    qed
  qed
  have 4: "\<forall>k x. inFlightCommands s' k = Some x \<longrightarrow>
         (\<exists>mon. monitors s' x = Some mon \<and> correlationData mon = k
                \<and> \<not> resolved mon \<and> \<not> rejected mon)"
  proof (intro allI impI)
    fix k x assume i: "inFlightCommands s' k = Some x"
    show "\<exists>mon. monitors s' x = Some mon \<and> correlationData mon = k
                \<and> \<not> resolved mon \<and> \<not> rejected mon"
    proof (cases "k = u")
      case True
      then show ?thesis using i f by simp
    next
      case False
      then have old: "inFlightCommands s k = Some x" using i f by simp
      from wf_inflight [OF wf old] obtain mon where
        mm: "monitors s x = Some mon" "correlationData mon = k" "\<not> resolved mon" "\<not> rejected mon"
        by blast
      then have "x \<noteq> r" using fresh by auto
      then show ?thesis using mm f by simp
    qed
  qed
  show ?thesis unfolding monitors_wf_def using 1 2 3 4 by blast
qed

lemma evolves_send:
  assumes wf: "monitors_wf s" and snd: "sendCommandAwaitReply n u t d c p opts s = (r, s')"
  shows "evolves s s'"
proof -
  note f = send_fields [OF snd]
  have fresh: "monitors s r = None" using wf_fresh [OF wf] f by simp
  show ?thesis unfolding evolves_def
  proof (intro allI impI)
    fix x mon assume m: "monitors s x = Some mon"
    then have ne: "x \<noteq> r" using fresh by auto
    show "(\<exists>mon'. monitors s' x = Some mon' \<and> command mon' = command mon
           \<and> correlationData mon' = correlationData mon
           \<and> (resolved mon \<longrightarrow> resolved mon') \<and> (rejected mon \<longrightarrow> rejected mon'))
        \<and> (\<forall>t. timers s' x = Some t \<longrightarrow> timers s x = Some t)
        \<and> (\<forall>v. promises s x = Some v \<longrightarrow> v \<noteq> Pending \<longrightarrow> promises s' x = Some v)"
      using m ne f by simp
  qed
qed

lemma settle_step:
  assumes wf: "monitors_wf s"
    and m: "monitors s r = Some mon"
    and un: "\<not> resolved mon" "\<not> rejected mon"
    and M: "monitors s' = (monitors s)(r \<mapsto> mon')"
    and same: "command mon' = command mon" "correlationData mon' = correlationData mon"
    and ph: "(resolved mon' \<and> \<not> rejected mon' \<and> (\<exists>p. v = Fulfilled p))
           \<or> (\<not> resolved mon' \<and> rejected mon' \<and> v = Rejected (Error ''Command timed out''))"
    and T: "timers s' = (timers s)(r := None)"
    and P: "promises s' = (promises s)(r \<mapsto> v)"
    and I: "\<forall>k. inFlightCommands s' k = (if k \<in> K then None else inFlightCommands s k)"
    and cdK: "correlationData mon \<in> K"
    and N: "nextMonitor s' = nextMonitor s"
  shows "monitors_wf s' \<and> evolves s s'"
proof -
  have pend: "promises s r = Some Pending" using wf_phase [OF wf m] un by blast
  have 1: "\<forall>x. monitors s' x = None \<longrightarrow> promises s' x = None \<and> timers s' x = None"
    using M T P wf_none [OF wf] by simp
  have 2: "\<forall>x mon. monitors s' x = Some mon \<longrightarrow> x < nextMonitor s'"
    using M N wf_lt [OF wf] wf_lt [OF wf m] by (auto split: if_splits)
  have 3: "\<forall>x mon. monitors s' x = Some mon \<longrightarrow>
         (\<not> resolved mon \<and> \<not> rejected mon \<and> promises s' x = Some Pending \<and> timers s' x \<noteq> None)
       \<or> (resolved mon \<and> \<not> rejected mon \<and> (\<exists>p. promises s' x = Some (Fulfilled p))
            \<and> timers s' x = None)
       \<or> (\<not> resolved mon \<and> rejected mon
            \<and> promises s' x = Some (Rejected (Error ''Command timed out'')) \<and> timers s' x = None)"
  proof (intro allI impI)
    fix x mx assume mx: "monitors s' x = Some mx"
    show "(\<not> resolved mx \<and> \<not> rejected mx \<and> promises s' x = Some Pending \<and> timers s' x \<noteq> None)
       \<or> (resolved mx \<and> \<not> rejected mx \<and> (\<exists>p. promises s' x = Some (Fulfilled p))
            \<and> timers s' x = None)
       \<or> (\<not> resolved mx \<and> rejected mx
            \<and> promises s' x = Some (Rejected (Error ''Command timed out'')) \<and> timers s' x = None)"
    proof (cases "x = r")
      case True
      then have "mx = mon'" using mx M by simp
      then show ?thesis using True ph T P by auto
    next
      case False
      then have "monitors s x = Some mx" using mx M by simp
      from wf_phase [OF wf this] show ?thesis using False T P by simp
    qed
  qed
  have 4: "\<forall>k x. inFlightCommands s' k = Some x \<longrightarrow>
         (\<exists>mon. monitors s' x = Some mon \<and> correlationData mon = k
                \<and> \<not> resolved mon \<and> \<not> rejected mon)"
  proof (intro allI impI)
    fix k x assume i: "inFlightCommands s' k = Some x"
    then have kK: "k \<notin> K" and old: "inFlightCommands s k = Some x"
      using I by (auto split: if_splits)
    from wf_inflight [OF wf old] obtain mx where
      mm: "monitors s x = Some mx" "correlationData mx = k" "\<not> resolved mx" "\<not> rejected mx"
      by blast
    have "x \<noteq> r" using mm m kK cdK by auto
    then show "\<exists>mon. monitors s' x = Some mon \<and> correlationData mon = k
                \<and> \<not> resolved mon \<and> \<not> rejected mon"
      using mm M by simp
  qed
  have wf': "monitors_wf s'" unfolding monitors_wf_def using 1 2 3 4 by blast
  have ev: "evolves s s'" unfolding evolves_def
  proof (intro allI impI)
    fix x mx assume mx: "monitors s x = Some mx"
    show "(\<exists>mon'. monitors s' x = Some mon' \<and> command mon' = command mx
           \<and> correlationData mon' = correlationData mx
           \<and> (resolved mx \<longrightarrow> resolved mon') \<and> (rejected mx \<longrightarrow> rejected mon'))
        \<and> (\<forall>t. timers s' x = Some t \<longrightarrow> timers s x = Some t)
        \<and> (\<forall>v. promises s x = Some v \<longrightarrow> v \<noteq> Pending \<longrightarrow> promises s' x = Some v)"
    proof (cases "x = r")
      case True
      then have "mx = mon" using mx m by simp
      then show ?thesis using True M T P same un pend by simp
    next
      case False
      then show ?thesis using mx M T P by simp
    qed
  qed
  show ?thesis using wf' ev by simp
qed

lemma fire_timer_idle: "timers s r = None \<Longrightarrow> fire_timer r s = s"
  by (simp add: fire_timer_def)

lemma fire_timer_fields:
  assumes wf: "monitors_wf s" and t: "timers s r = Some delay"
  shows "\<exists>mon. monitors s r = Some mon \<and> \<not> resolved mon \<and> \<not> rejected mon
     \<and> monitors (fire_timer r s) = (monitors s)(r \<mapsto> mon\<lparr>rejected := True\<rparr>)
     \<and> timers (fire_timer r s) = (timers s)(r := None)
     \<and> promises (fire_timer r s) = (promises s)(r \<mapsto> Rejected (Error ''Command timed out''))
     \<and> inFlightCommands (fire_timer r s) = (inFlightCommands s)(correlationData mon := None)
     \<and> nextMonitor (fire_timer r s) = nextMonitor s
     \<and> devices (fire_timer r s) = devices s"
proof -
  obtain mon where m: "monitors s r = Some mon"
    using wf_none [OF wf, of r] t by (cases "monitors s r") auto
  from wf_phase [OF wf m] t have un: "\<not> resolved mon" "\<not> rejected mon"
    and p: "promises s r = Some Pending" by auto
  show ?thesis using m un p t
    by (simp add: fire_timer_def timer_callback_def monitor_reject_def settle_def)
qed

lemma fire_timer_step:
  assumes wf: "monitors_wf s"
  shows "monitors_wf (fire_timer r s) \<and> evolves s (fire_timer r s)"
proof (cases "timers s r")
  case None
  then show ?thesis using wf fire_timer_idle [OF None] evolves_same [of s s] by simp
next
  case (Some delay)
  from fire_timer_fields [OF wf Some] obtain mon where
    f: "monitors s r = Some mon" "\<not> resolved mon" "\<not> rejected mon"
     "monitors (fire_timer r s) = (monitors s)(r \<mapsto> mon\<lparr>rejected := True\<rparr>)"
     "timers (fire_timer r s) = (timers s)(r := None)"
     "promises (fire_timer r s) = (promises s)(r \<mapsto> Rejected (Error ''Command timed out''))"
     "inFlightCommands (fire_timer r s) = (inFlightCommands s)(correlationData mon := None)"
     "nextMonitor (fire_timer r s) = nextMonitor s"
    by blast
  show ?thesis
    by (rule settle_step [OF wf f(1) f(2) f(3) f(4) _ _ _ f(5) f(6) _ _ f(8),
          where K = "{correlationData mon}"])
       (simp_all add: f)
qed

lemma response_cases:
  assumes "handleCommandResponse e resp s = Inr s'"
  shows "s' = s \<or> (\<exists>message cd p r mon.
           JSON_parse e (response_message resp) = Some message
         \<and> get_prop message ''correlationData'' = Inr (Some cd)
         \<and> get_prop message ''payload'' = Inr (Some p)
         \<and> inFlightCommands s (toPropertyKey cd) = Some r
         \<and> monitors s r = Some mon
         \<and> s' = resolved_by r p s)"
  using assms
  by (auto simp add: handleCommandResponse_def resolved_by_def Let_def
      split: if_splits option.splits sum.splits prod.splits)

lemma resolved_by_fields:
  assumes m: "monitors s r = Some mon" and p: "promises s r = Some Pending"
  shows "monitors (resolved_by r v s) = (monitors s)(r \<mapsto> mon\<lparr>resolved := True\<rparr>)
     \<and> timers (resolved_by r v s) = (timers s)(r := None)
     \<and> promises (resolved_by r v s) = (promises s)(r \<mapsto> Fulfilled v)
     \<and> (\<forall>k. inFlightCommands (resolved_by r v s) k =
           (if k \<in> {correlationData mon, ''undefined''} then None else inFlightCommands s k))
     \<and> nextMonitor (resolved_by r v s) = nextMonitor s
     \<and> devices (resolved_by r v s) = devices s"
  using m p by (simp add: resolved_by_def monitor_resolve_def settle_def Let_def)

lemma response_step:
  assumes wf: "monitors_wf s" and h: "handleCommandResponse e resp s = Inr s'"
  shows "monitors_wf s' \<and> evolves s s'"
proof -
  from response_cases [OF h] show ?thesis
  proof
    assume "s' = s"
    then show ?thesis using wf evolves_same [of s s] by simp
  next
    assume "\<exists>message cd p r mon.
           JSON_parse e (response_message resp) = Some message
         \<and> get_prop message ''correlationData'' = Inr (Some cd)
         \<and> get_prop message ''payload'' = Inr (Some p)
         \<and> inFlightCommands s (toPropertyKey cd) = Some r
         \<and> monitors s r = Some mon
         \<and> s' = resolved_by r p s"
    then obtain cd p r mon where i: "inFlightCommands s (toPropertyKey cd) = Some r"
      and m: "monitors s r = Some mon" and s': "s' = resolved_by r p s" by blast
    from wf_inflight [OF wf i] m have un: "\<not> resolved mon" "\<not> rejected mon" by auto
    from wf_inflight_pending [OF wf i] have pend: "promises s r = Some Pending" by simp
    note f = resolved_by_fields [OF m pend, of p]
    show ?thesis unfolding s'
      by (rule settle_step [OF wf m un, where K = "{correlationData mon, ''undefined''}"
            and mon' = "mon\<lparr>resolved := True\<rparr>" and v = "Fulfilled p"])
         (simp_all add: f un)
  qed
qed

lemma step_invariant:
  assumes wf: "monitors_wf s" and st: "step e ev s = Inr s'"
  shows "monitors_wf s' \<and> evolves s s'"
proof (cases ev)
  case (StatusEvent x)
  then have "same_monitors s s'" using st same_monitors_handleStatus by auto
  then show ?thesis using wf monitors_wf_same evolves_same by blast
next
  case (LogEvent x)
  then have "same_monitors s s'" using st same_monitors_forwardLog by auto
  then show ?thesis using wf monitors_wf_same evolves_same by blast
next
  case (ResponseEvent x)
  then show ?thesis using st response_step [OF wf] by simp
next
  case (AwaitReply n u t d c p opts)
  then have "sendCommandAwaitReply n u t d c p opts s
             = (fst (sendCommandAwaitReply n u t d c p opts s), s')"
    using st by auto
  then show ?thesis using monitors_wf_send [OF wf] evolves_send [OF wf] by blast
next
  case (Command t d c p)
  then have "same_monitors s s'" using st by auto
  then show ?thesis using wf monitors_wf_same evolves_same by blast
next
  case (TimerFires r)
  then show ?thesis using st fire_timer_step [OF wf, of r] by auto
next
  case (StreamLogs t d k)
  then have "same_monitors s s'" using st same_monitors_streamLogs by auto
  then show ?thesis using wf monitors_wf_same evolves_same by blast
next
  case (SocketCloses t d k)
  then have "same_monitors s s'" using st same_monitors_socket_close by auto
  then show ?thesis using wf monitors_wf_same evolves_same by blast
qed

lemma run_invariant:
  "monitors_wf s \<Longrightarrow> run e evs s = Inr s' \<Longrightarrow> monitors_wf s' \<and> evolves s s'"
proof (induction evs arbitrary: s)
  case Nil
  then show ?case using evolves_same [of s s] by simp
next
  case (Cons ev evs)
  from Cons.prems(2) obtain s1 where a: "step e ev s = Inr s1" and b: "run e evs s1 = Inr s'"
    by (auto split: sum.splits)
  from step_invariant [OF Cons.prems(1) a] have c: "monitors_wf s1" "evolves s s1" by simp_all
  from Cons.IH [OF c(1) b] have "monitors_wf s'" "evolves s1 s'" by simp_all
  then show ?case using evolves_trans [OF c(2)] by simp
qed

subsection \<open>Replies and timeouts\<close>

lemma get_prop_not_null: "get_prop message name = Inr (Some v) \<Longrightarrow> \<exists>kvs. message = JObj kvs"
  by (cases message) auto

lemma response_resolves:
  assumes "response_id resp \<noteq> []" "devices s (response_id resp) = Some d"
    and "JSON_parse e (response_message resp) = Some message"
    and "get_prop message ''command'' = Inr (Some (JStr cmd))" "cmd \<noteq> []"
    and "get_prop message ''correlationData'' = Inr (Some token)" "truthy token"
    and "get_prop message ''payload'' = Inr (Some reply)" "truthy reply"
    and "inFlightCommands s (toPropertyKey token) = Some r"
    and "monitors s r = Some mon" "command mon = cmd"
  shows "handleCommandResponse e resp s = Inr (resolved_by r reply s)"
  using assms by (simp add: handleCommandResponse_def resolved_by_def Let_def)

lemma response_dropped_no_monitor:
  assumes "JSON_parse e (response_message resp) = Some message"
    and "get_prop message ''correlationData'' = Inr (Some token)"
    and "inFlightCommands s (toPropertyKey token) = None"
  shows "handleCommandResponse e resp s = Inr s"
proof -
  from get_prop_not_null [OF assms(2)] obtain kvs where "message = JObj kvs" by blast
  then show ?thesis using assms
    by (simp add: handleCommandResponse_def split: option.splits)
qed

lemma response_dropped_falsy_payload:
  assumes "JSON_parse e (response_message resp) = Some message"
    and "get_prop message ''payload'' = Inr (Some reply)" "\<not> truthy reply"
  shows "handleCommandResponse e resp s = Inr s"
proof -
  from get_prop_not_null [OF assms(2)] obtain kvs where "message = JObj kvs" by blast
  then show ?thesis using assms
    by (simp add: handleCommandResponse_def split: option.splits)
qed

lemma response_unparseable:
  assumes "response_id resp \<noteq> []" and "JSON_parse e (response_message resp) = None"
  shows "handleCommandResponse e resp s = Inl SyntaxError"
  using assms by (simp add: handleCommandResponse_def)

lemma response_null_message:
  assumes "response_id resp \<noteq> []" and "JSON_parse e (response_message resp) = Some JNull"
  shows "handleCommandResponse e resp s = Inl TypeError"
  using assms by (simp add: handleCommandResponse_def)

lemma response_dropped_missing_field:
  assumes "JSON_parse e (response_message resp) = Some message" and "message \<noteq> JNull"
    and "get_prop message ''command'' = Inr None
         \<or> get_prop message ''correlationData'' = Inr None
         \<or> get_prop message ''payload'' = Inr None"
  shows "handleCommandResponse e resp s = Inr s"
  using assms
  by (cases message)
     (auto simp add: handleCommandResponse_def split: option.splits sum.splits)

lemma sent_monitor:
  assumes reach: "run e evs0 (new_handler db) = Inr s0"
    and sent: "sendCommandAwaitReply now uuid team dev cmd p options s0 = (r, s1)"
    and later: "run e evs s1 = Inr s"
  shows "monitors_wf s \<and> (\<exists>mon. monitors s r = Some mon \<and> command mon = cmd
            \<and> correlationData mon = uuid)
         \<and> (\<forall>t. timers s r = Some t \<longrightarrow> t = sanitise_timeout options)"
proof -
  have wf0: "monitors_wf s0" using run_invariant [OF monitors_wf_new reach] by simp
  have wf1: "monitors_wf s1" using monitors_wf_send [OF wf0 sent] .
  note f = send_fields [OF sent]
  have m1: "monitors s1 r = Some (newResponseMonitor now uuid cmd dev team (sanitise_timeout options))"
    using f by simp
  from run_invariant [OF wf1 later] have wf: "monitors_wf s" and ev: "evolves s1 s" by simp_all
  from ev m1 have "\<exists>mon. monitors s r = Some mon \<and> command mon = cmd \<and> correlationData mon = uuid"
    unfolding evolves_def by fastforce
  moreover have "\<forall>t. timers s r = Some t \<longrightarrow> t = sanitise_timeout options"
  proof (intro allI impI)
    fix t assume "timers s r = Some t"
    then have "timers s1 r = Some t" using ev m1 unfolding evolves_def by blast
    then show "t = sanitise_timeout options" using f by simp
  qed
  ultimately show ?thesis using wf by simp
qed

text \<open>
  C1, as amended. A command is sent with \<open>sendCommandAwaitReply\<close> and its monitor is still in
  flight. A reply event then arrives with a non-empty id that \<open>Device.byId\<close> knows, whose
  message parses and has a truthy \<open>payload\<close>, a \<open>command\<close> equal to the (non-empty) command
  sent and a truthy \<open>correlationData\<close> that is the key of the monitor. Then the promise
  returned by \<open>sendCommandAwaitReply\<close> is fulfilled with the payload, the monitor is resolved
  and gone from \<open>inFlightCommands\<close>, and the same reply handled once more changes nothing.
\<close>
theorem reply_resolves_monitor:
  assumes reach: "run e evs0 (new_handler db) = Inr s0"
    and sent: "sendCommandAwaitReply now uuid team dev cmd p options s0 = (r, s1)"
    and later: "run e evs s1 = Inr s"
    and inflight: "inFlightCommands s uuid = Some r"
    and id: "response_id resp \<noteq> []" "devices s (response_id resp) = Some d"
    and parse: "JSON_parse e (response_message resp) = Some message"
    and c: "get_prop message ''command'' = Inr (Some (JStr cmd))" "cmd \<noteq> []"
    and cd: "get_prop message ''correlationData'' = Inr (Some token)" "truthy token"
      "toPropertyKey token = uuid"
    and pl: "get_prop message ''payload'' = Inr (Some reply)" "truthy reply"
  shows "\<exists>s'. handleCommandResponse e resp s = Inr s'
            \<and> promises s' r = Some (Fulfilled reply)
            \<and> inFlightCommands s' uuid = None
            \<and> (\<exists>mon'. monitors s' r = Some mon' \<and> resolved mon' \<and> \<not> rejected mon')
            \<and> handleCommandResponse e resp s' = Inr s'"
proof -
  from sent_monitor [OF reach sent later] obtain mon where wf: "monitors_wf s"
    and m: "monitors s r = Some mon" "command mon = cmd" "correlationData mon = uuid" by blast
  have i: "inFlightCommands s (toPropertyKey token) = Some r" using inflight cd(3) by simp
  from wf_inflight [OF wf inflight] m have un: "\<not> resolved mon" "\<not> rejected mon" by auto
  from wf_inflight_pending [OF wf inflight] have pend: "promises s r = Some Pending" by simp
  let ?s' = "resolved_by r reply s"
  have h: "handleCommandResponse e resp s = Inr ?s'"
    using response_resolves [OF id parse c cd(1,2) pl i m(1,2)] .
  note f = resolved_by_fields [OF m(1) pend, of reply]
  have gone: "inFlightCommands ?s' (toPropertyKey token) = None" using f m(3) cd(3) by simp
  have dup: "handleCommandResponse e resp ?s' = Inr ?s'"
    using response_dropped_no_monitor [OF parse cd(1) gone] .
  show ?thesis using h f gone dup cd(3) un by auto
qed

lemma response_resolves_only_matching:
  assumes "handleCommandResponse e resp s = Inr s'"
  shows "s' = s \<or> (\<exists>message cd p r mon.
           JSON_parse e (response_message resp) = Some message
         \<and> get_prop message ''correlationData'' = Inr (Some cd)
         \<and> get_prop message ''command'' = Inr (Some (JStr (command mon)))
         \<and> inFlightCommands s (toPropertyKey cd) = Some r
         \<and> monitors s r = Some mon
         \<and> s' = resolved_by r p s)"
  using assms
  by (auto simp add: handleCommandResponse_def resolved_by_def Let_def
      split: if_splits option.splits sum.splits prod.splits)

lemma undisturbed_step:
  assumes wf: "monitors_wf s"
    and m: "monitors s r = Some mon" "command mon = cmd" "correlationData mon = uuid"
    and un: "\<not> resolved mon" "\<not> rejected mon"
    and st: "step e ev s = Inr s'"
    and quiet: "undisturbed e uuid cmd r ev"
  shows "monitors s' r = Some mon"
proof (cases ev)
  case (StatusEvent x)
  then have "same_monitors s s'" using st same_monitors_handleStatus by auto
  then show ?thesis using m by (simp add: same_monitors_def)
next
  case (LogEvent x)
  then have "same_monitors s s'" using st same_monitors_forwardLog by auto
  then show ?thesis using m by (simp add: same_monitors_def)
next
  case (ResponseEvent resp)
  then have h: "handleCommandResponse e resp s = Inr s'" using st by simp
  from response_resolves_only_matching [OF h] show ?thesis
  proof
    assume "s' = s"
    then show ?thesis using m by simp
  next
    assume "\<exists>message cd p r0 mon0.
           JSON_parse e (response_message resp) = Some message
         \<and> get_prop message ''correlationData'' = Inr (Some cd)
         \<and> get_prop message ''command'' = Inr (Some (JStr (command mon0)))
         \<and> inFlightCommands s (toPropertyKey cd) = Some r0
         \<and> monitors s r0 = Some mon0
         \<and> s' = resolved_by r0 p s"
    then obtain message cd p r0 mon0 where
      pa: "JSON_parse e (response_message resp) = Some message"
      and c: "get_prop message ''correlationData'' = Inr (Some cd)"
      and k: "get_prop message ''command'' = Inr (Some (JStr (command mon0)))"
      and i: "inFlightCommands s (toPropertyKey cd) = Some r0"
      and m0: "monitors s r0 = Some mon0"
      and s': "s' = resolved_by r0 p s"
      by blast
    have ne: "r0 \<noteq> r"
    proof
      assume eq: "r0 = r"
      then have "mon0 = mon" using m0 m(1) by simp
      moreover from wf_inflight [OF wf i] m0 have "correlationData mon0 = toPropertyKey cd" by auto
      ultimately have "reply_matches e uuid cmd resp"
        using pa c k m(2,3) by (simp add: reply_matches_def)
      then show False using quiet ResponseEvent by simp
    qed
    from wf_inflight_pending [OF wf i] have pend: "promises s r0 = Some Pending" by simp
    from resolved_by_fields [OF m0 pend, of p] show ?thesis using s' ne m(1) by simp
  qed
next
  case (AwaitReply n u t d c p opts)
  then have snd: "sendCommandAwaitReply n u t d c p opts s
             = (fst (sendCommandAwaitReply n u t d c p opts s), s')"
    using st by auto
  note f = send_fields [OF snd]
  have "fst (sendCommandAwaitReply n u t d c p opts s) \<noteq> r"
    using f wf_fresh [OF wf] m(1) by auto
  then show ?thesis using f m(1) by simp
next
  case (Command t d c p)
  then show ?thesis using st m by auto
next
  case (TimerFires r')
  then have ne: "r' \<noteq> r" using quiet by simp
  have s': "s' = fire_timer r' s" using TimerFires st by simp
  show ?thesis
  proof (cases "timers s r'")
    case None
    then show ?thesis using s' m fire_timer_idle by simp
  next
    case (Some delay)
    from fire_timer_fields [OF wf Some] show ?thesis using s' ne m(1) by auto
  qed
next
  case (StreamLogs t d k)
  then have "same_monitors s s'" using st same_monitors_streamLogs by auto
  then show ?thesis using m by (simp add: same_monitors_def)
next
  case (SocketCloses t d k)
  then have "same_monitors s s'" using st same_monitors_socket_close by auto
  then show ?thesis using m by (simp add: same_monitors_def)
qed

lemma undisturbed_run:
  assumes "monitors_wf s"
    and "monitors s r = Some mon" "command mon = cmd" "correlationData mon = uuid"
    and "\<not> resolved mon" "\<not> rejected mon"
    and "run e evs s = Inr s'"
    and "\<forall>ev \<in> set evs. undisturbed e uuid cmd r ev"
  shows "monitors s' r = Some mon"
  using assms
proof (induction evs arbitrary: s)
  case Nil
  then show ?case by simp
next
  case (Cons ev evs)
  from Cons.prems(7) obtain s1 where a: "step e ev s = Inr s1" and b: "run e evs s1 = Inr s'"
    by (auto split: sum.splits)
  have q: "undisturbed e uuid cmd r ev" "\<forall>ev \<in> set evs. undisturbed e uuid cmd r ev"
    using Cons.prems(8) by simp_all
  have wf1: "monitors_wf s1" using step_invariant [OF Cons.prems(1) a] by simp
  have m1: "monitors s1 r = Some mon"
    using undisturbed_step [OF Cons.prems(1-6) a q(1)] .
  show ?case using Cons.IH [OF wf1 m1 Cons.prems(3-6) b q(2)] .
qed

text \<open>
  C2. A command is sent with \<open>sendCommandAwaitReply\<close>; the events handled after it hold no
  reply that matches the monitor (same token and same command) and the monitor's timer has
  not fired. Then the promise is still pending and the timer is the one set with
  \<open>options.timeout\<close> when that is a number above 0, with 5000 otherwise. When it fires, the
  promise is rejected with the error "Command timed out", the monitor is rejected and under
  no key of \<open>inFlightCommands\<close>, its token among them; a reply that parses and carries that
  token, handled afterwards, leaves the handler as it is.
\<close>
theorem timeout_rejects_monitor:
  assumes reach: "run e evs0 (new_handler db) = Inr s0"
    and sent: "sendCommandAwaitReply now uuid team dev cmd p options s0 = (r, s1)"
    and later: "run e evs s1 = Inr s"
    and quiet: "\<forall>ev \<in> set evs. undisturbed e uuid cmd r ev"
  shows "promises s r = Some Pending
       \<and> timers s r = Some (case options of None \<Rightarrow> 5000
                                            | Some t \<Rightarrow> if 0 < t then t else 5000)
       \<and> promises (fire_timer r s) r = Some (Rejected (Error ''Command timed out''))
       \<and> (\<exists>mon'. monitors (fire_timer r s) r = Some mon' \<and> rejected mon' \<and> \<not> resolved mon')
       \<and> inFlightCommands (fire_timer r s) uuid = None
       \<and> (\<forall>k. inFlightCommands (fire_timer r s) k \<noteq> Some r)
       \<and> (\<forall>resp message token.
             JSON_parse e (response_message resp) = Some message
           \<and> get_prop message ''correlationData'' = Inr (Some token)
           \<and> toPropertyKey token = uuid
           \<longrightarrow> handleCommandResponse e resp (fire_timer r s) = Inr (fire_timer r s))"
proof -
  let ?mon = "newResponseMonitor now uuid cmd dev team (sanitise_timeout options)"
  have wf0: "monitors_wf s0" using run_invariant [OF monitors_wf_new reach] by simp
  have wf1: "monitors_wf s1" using monitors_wf_send [OF wf0 sent] .
  note f1 = send_fields [OF sent]
  have m1: "monitors s1 r = Some ?mon" using f1 by simp
  have m: "monitors s r = Some ?mon"
    by (rule undisturbed_run [OF wf1 m1 _ _ _ _ later quiet]) simp_all
  from sent_monitor [OF reach sent later] have wf: "monitors_wf s"
    and tm: "\<forall>t. timers s r = Some t \<longrightarrow> t = sanitise_timeout options" by simp_all
  from wf_phase [OF wf m] have pend: "promises s r = Some Pending"
    and "timers s r \<noteq> None" by simp_all
  then have t: "timers s r = Some (sanitise_timeout options)" using tm by auto
  have tv: "sanitise_timeout options
      = (case options of None \<Rightarrow> 5000 | Some t \<Rightarrow> if 0 < t then t else 5000)"
    by (simp add: sanitise_timeout_def DEFAULT_TIMEOUT_def split: option.splits)
  from fire_timer_fields [OF wf t] m have
    f: "promises (fire_timer r s) = (promises s)(r \<mapsto> Rejected (Error ''Command timed out''))"
       "inFlightCommands (fire_timer r s) = (inFlightCommands s)(uuid := None)"
       "monitors (fire_timer r s) = (monitors s)(r \<mapsto> ?mon\<lparr>rejected := True\<rparr>)"
    by auto
  have gone: "inFlightCommands (fire_timer r s) uuid = None" using f by simp
  have flags: "\<exists>mon'. monitors (fire_timer r s) r = Some mon' \<and> rejected mon' \<and> \<not> resolved mon'"
    using f(3) by simp
  have wf': "monitors_wf (fire_timer r s)" using fire_timer_step [OF wf] by simp
  have nokey: "\<forall>k. inFlightCommands (fire_timer r s) k \<noteq> Some r"
  proof (intro allI notI)
    fix k assume "inFlightCommands (fire_timer r s) k = Some r"
    from wf_inflight [OF wf' this] f(3) show False by auto
  qed
  have late: "handleCommandResponse e resp (fire_timer r s) = Inr (fire_timer r s)"
    if "JSON_parse e (response_message resp) = Some message"
      "get_prop message ''correlationData'' = Inr (Some token)" "toPropertyKey token = uuid"
    for resp message token
    using response_dropped_no_monitor [OF that(1,2)] gone that(3) by simp
  show ?thesis using pend t tv f(1) flags gone nokey late by simp
qed

text \<open>
  C4. For the monitor created by a \<open>sendCommandAwaitReply\<close>, in every later state \<open>s\<close> and in
  every state \<open>s'\<close> after that, \<open>resolved\<close> and \<open>rejected\<close> are never both set. Once one of
  them is set, both flags and the promise stay as they are, the timer is cancelled and the
  monitor is under no key of \<open>inFlightCommands\<close>, so no reply reaches it; the timer callback
  and a firing of the timer do nothing.
\<close>
theorem monitor_flags_exclusive:
  assumes reach: "run e evs0 (new_handler db) = Inr s0"
    and sent: "sendCommandAwaitReply now uuid team dev cmd p options s0 = (r, s1)"
    and later: "run e evs s1 = Inr s"
    and after: "run e evs' s = Inr s'"
  shows "\<exists>mon mon'. monitors s r = Some mon \<and> monitors s' r = Some mon'
       \<and> \<not> (resolved mon \<and> rejected mon) \<and> \<not> (resolved mon' \<and> rejected mon')
       \<and> (resolved mon \<or> rejected mon \<longrightarrow>
            resolved mon' = resolved mon \<and> rejected mon' = rejected mon
            \<and> timers s' r = None \<and> (\<forall>k. inFlightCommands s' k \<noteq> Some r)
            \<and> promises s' r = promises s r
            \<and> timer_callback r s' = s' \<and> fire_timer r s' = s')"
proof -
  from sent_monitor [OF reach sent later] obtain mon where wf: "monitors_wf s"
    and m: "monitors s r = Some mon" by blast
  from run_invariant [OF wf after] have wf': "monitors_wf s'" and ev: "evolves s s'" by simp_all
  from ev m obtain mon' where m': "monitors s' r = Some mon'"
    and mono: "resolved mon \<longrightarrow> resolved mon'" "rejected mon \<longrightarrow> rejected mon'"
    and keep: "\<forall>v. promises s r = Some v \<longrightarrow> v \<noteq> Pending \<longrightarrow> promises s' r = Some v"
    unfolding evolves_def by blast
  note ph = wf_phase [OF wf m]
  note ph' = wf_phase [OF wf' m']
  have ex: "\<not> (resolved mon \<and> rejected mon)" "\<not> (resolved mon' \<and> rejected mon')"
    using ph ph' by auto
  have settled: "resolved mon' = resolved mon \<and> rejected mon' = rejected mon
            \<and> timers s' r = None \<and> (\<forall>k. inFlightCommands s' k \<noteq> Some r)
            \<and> promises s' r = promises s r
            \<and> timer_callback r s' = s' \<and> fire_timer r s' = s'"
    if settled0: "resolved mon \<or> rejected mon"
  proof -
    have fl: "resolved mon' = resolved mon \<and> rejected mon' = rejected mon"
      using settled0 mono ex by auto
    then have d': "resolved mon' \<or> rejected mon'" using settled0 by simp
    have t': "timers s' r = None" using ph' d' by auto
    have nf: "\<forall>k. inFlightCommands s' k \<noteq> Some r"
    proof (intro allI notI)
      fix k assume "inFlightCommands s' k = Some r"
      from wf_inflight [OF wf' this] m' d' show False by auto
    qed
    have pr: "promises s' r = promises s r" using ph settled0 keep by auto
    have cb: "timer_callback r s' = s'" using m' d' by (auto simp add: timer_callback_def)
    show ?thesis using fl t' nf pr cb fire_timer_idle [OF t'] by simp
  qed
  show ?thesis using m m' ex settled by blast
qed

subsection \<open>Status events\<close>

lemma updateState_frame:
  assumes "updateState e dev payload = Inr saved"
  shows "hashid saved = hashid dev \<and> Team_hashid saved = Team_hashid dev
       \<and> Project_id saved = Project_id dev
       \<and> targetSnapshot_hashid saved = targetSnapshot_hashid dev
       \<and> settingsHash saved = settingsHash dev \<and> mode saved = mode dev"
  using assms
  by (auto simp add: updateState_def Let_def split: sum.splits option.splits if_splits)

lemma updateState_total:
  assumes "get_prop payload name = Inr (Some v)"
  shows "\<exists>saved. updateState e dev payload = Inr saved"
proof -
  from get_prop_not_null [OF assms] obtain kvs where "payload = JObj kvs" by blast
  then show ?thesis
    by (simp add: updateState_def Let_def split: option.splits)
qed

text \<open>
  C8. A status event with a non-empty id of a known device, whose non-empty status text
  parses to an object with \<open>state\<close> equal to "unknown", with \<open>app.comms\<close> set (the handler is
  part of it): \<open>handleStatus\<close> publishes exactly one more command, the "update" command on
  the device's command topic with its project, target snapshot, settings hash, mode and the
  licence state.
\<close>
theorem unknown_state_sends_one_update:
  assumes "status_id st \<noteq> []" and "devices s (status_id st) = Some dev"
    and "status_status st \<noteq> []" and "JSON_parse e (status_status st) = Some payload"
    and "get_prop payload ''state'' = Inr (Some (JStr ''unknown''))"
    and "app_comms e"
  shows "publications (handleStatus e st s) = publications s @
           [\<lparr>pub_topic = ''ff/v1/'' @ Team_hashid dev @ ''/d/'' @ hashid dev @ ''/command'',
             pub_command = ''update'',
             pub_payload = UpdateData
               \<lparr>upd_project = or_null (Project_id dev),
                upd_snapshot = or_null (targetSnapshot_hashid dev),
                upd_settings = or_null (settingsHash dev),
                upd_mode = mode dev,
                upd_licensed = license_active e\<rparr>\<rparr>]"
proof -
  from updateState_total [OF assms(5)] obtain saved where
    u: "updateState e dev payload = Inr saved" by blast
  note f = updateState_frame [OF u]
  have st: "read_prop payload ''state'' = Some (JStr ''unknown'')"
    using assms(5) by (simp add: read_prop_def)
  show ?thesis using assms(1-4,6) u st f
    by (simp add: handleStatus_def sendDeviceUpdateCommand_def sendCommand_def Let_def)
qed

text \<open>
  C9. For a status payload with a (truthy) snapshot reference that decodes to no id, or
  whose snapshot no longer exists, \<open>updateState\<close> saves the device with \<open>activeSnapshotId\<close>
  as it was, with \<open>state\<close> and \<open>agentVersion\<close> set from the payload where that gives a truthy
  value, and with \<open>lastSeenAt\<close> stamped.
\<close>
theorem vanished_snapshot_keeps_active:
  assumes "get_prop st ''snapshot'' = Inr (Some snapshot)" and "truthy snapshot"
    and "decodeHashid e snapshot = [] \<or> \<not> snapshot_byId e snapshot"
  shows "\<exists>saved. updateState e dev st = Inr saved
       \<and> activeSnapshotId saved = activeSnapshotId dev
       \<and> dev_state saved = (if truthy_opt (read_prop st ''state'') then read_prop st ''state''
                             else dev_state dev)
       \<and> agentVersion saved = (if truthy_opt (read_prop st ''agentVersion'')
                                then read_prop st ''agentVersion'' else agentVersion dev)
       \<and> lastSeenAt saved = CURRENT_TIMESTAMP"
proof -
  from get_prop_not_null [OF assms(1)] obtain kvs where o: "st = JObj kvs" by blast
  have sn: "read_prop st ''snapshot'' = Some snapshot" using assms(1) by (simp add: read_prop_def)
  have gs: "get_prop st ''state'' = Inr (read_prop st ''state'')" using o by (simp add: read_prop_def)
  show ?thesis using assms(2,3) sn gs
    by (auto simp add: updateState_def Let_def)
qed

text \<open>
  C10. A reply whose message parses and carries the token of a monitor in flight, with a
  payload that is present but \<open>false\<close>, \<open>0\<close>, the empty string or \<open>null\<close>: the handler is left
  exactly as it was, the promise is still pending and the timer still set, and when the
  timer fires the promise is rejected with the timeout error.
\<close>
theorem falsy_payload_reply_dropped:
  assumes reach: "run e evs0 (new_handler db) = Inr s0"
    and sent: "sendCommandAwaitReply now uuid team dev cmd p options s0 = (r, s1)"
    and later: "run e evs s1 = Inr s"
    and inflight: "inFlightCommands s uuid = Some r"
    and parse: "JSON_parse e (response_message resp) = Some message"
    and cd: "get_prop message ''correlationData'' = Inr (Some token)" "toPropertyKey token = uuid"
    and pl: "get_prop message ''payload'' = Inr (Some reply)"
      "reply = JBool False \<or> reply = JNum ''0'' \<or> reply = JStr [] \<or> reply = JNull"
  shows "handleCommandResponse e resp s = Inr s
       \<and> promises s r = Some Pending
       \<and> timers s r = Some (sanitise_timeout options)
       \<and> promises (fire_timer r s) r = Some (Rejected (Error ''Command timed out''))"
proof -
  have falsy: "\<not> truthy reply" using pl(2) by auto
  have dropped: "handleCommandResponse e resp s = Inr s"
    using response_dropped_falsy_payload [OF parse pl(1) falsy] .
  from sent_monitor [OF reach sent later] have wf: "monitors_wf s"
    and tm: "\<forall>t. timers s r = Some t \<longrightarrow> t = sanitise_timeout options" by simp_all
  from wf_inflight_pending [OF wf inflight] have pend: "promises s r = Some Pending"
    and "timers s r \<noteq> None" by simp_all
  then have t: "timers s r = Some (sanitise_timeout options)" using tm by auto
  from fire_timer_fields [OF wf t] have
    "promises (fire_timer r s) r = Some (Rejected (Error ''Command timed out''))" by auto
  then show ?thesis using dropped pend t by simp
qed

subsection \<open>Access control\<close>

lemma SHARED_SUB_exec_shape:
  "SHARED_SUB_exec t = Some parts \<Longrightarrow> \<exists>shareGroup inner. parts = [Some t, Some shareGroup, Some inner]
      \<and> t = ''$share/'' @ shareGroup @ ''/'' @ inner \<and> shareGroup \<noteq> [] \<and> CHR ''/'' \<notin> set shareGroup"
proof -
  assume a: "SHARED_SUB_exec t = Some parts"
  let ?d = "drop 7 t"
  let ?g = "takeWhile (\<lambda>c. c \<noteq> CHR ''/'') ?d"
  let ?r = "dropWhile (\<lambda>c. c \<noteq> CHR ''/'') ?d"
  from a have pre: "take 7 t = ''$share/''" and g: "?g \<noteq> []" and r: "?r \<noteq> []"
    and parts: "parts = [Some t, Some ?g, Some (tl ?r)]"
    by (auto simp add: SHARED_SUB_exec_def Let_def split: if_splits)
  have "hd ?r = CHR ''/''" using r hd_dropWhile [of "\<lambda>c. c \<noteq> CHR ''/''" ?d] by auto
  then have r': "?r = CHR ''/'' # tl ?r" using r by (cases ?r) auto
  have "t = take 7 t @ ?d" by simp
  also have "?d = ?g @ ?r" by simp
  finally have "t = ''$share/'' @ ?g @ ''/'' @ tl ?r" using pre r' by (metis append_Cons append_Nil)
  moreover have "CHR ''/'' \<notin> set ?g" using set_takeWhileD by fastforce
  ultimately show ?thesis using parts g by blast
qed

lemma scan_find:
  "scan db sh topic parts rules =
     (case find (\<lambda>rule. acl_topic rule topic \<noteq> None) rules of
        None \<Rightarrow> Inr False
      | Some rule \<Rightarrow> decide db sh rule (the (acl_topic rule topic)) parts)"
  by (induction rules) (auto split: option.splits)

lemma find_registered_later:
  "find P xs = Some x \<Longrightarrow> find P (xs @ ys) = Some x"
  by (induction xs) (auto split: if_splits)

lemma verify_unfold:
  assumes "select_acls A username (if accessLevel = 2 then Pub else Sub) = Some aclList"
  shows "verify db A username topic accessLevel =
     (case scanned_topic username topic accessLevel of
        None \<Rightarrow> Inr False
      | Some (sh, topic') \<Rightarrow> scan db sh topic' (map Some (split_on CHR '':'' username)) aclList)"
proof (cases aclList)
  case Nil
  then show ?thesis using assms
    by (auto simp add: verify_def scanned_topic_def Let_def split: option.splits)
next
  case (Cons a list)
  then show ?thesis using assms
    by (auto simp add: verify_def scanned_topic_def Let_def split: option.splits)
qed

lemma addACL_appends: "addACL sc ac new A sc ac = A sc ac @ [new]"
  by (simp add: addACL_def)

lemma select_acls_addACL:
  assumes "select_acls A username ac = Some aclList"
  shows "select_acls (addACL sc ac new A) username ac = Some aclList
       \<or> select_acls (addACL sc ac new A) username ac = Some (aclList @ [new])"
  using assms by (auto simp add: select_acls_def addACL_def split: if_splits)

text \<open>
  C5. For a subscription (an access level other than 2) to a topic that \<open>SHARED_SUB\<close> matches
  (\<open>$share/\<close>, a share group, a slash and an inner topic), if the share group is not the
  third colon-separated part of the username, \<open>verify\<close> returns false, whatever the rule
  lists hold and whatever the inner topic is.
\<close>
theorem shared_group_mismatch_denied:
  assumes "accessLevel \<noteq> 2"
    and "SHARED_SUB_exec topic = Some [Some whole, Some shareGroup, Some inner]"
    and "Some shareGroup \<noteq> at (map Some (split_on CHR '':'' username)) 2"
  shows "verify db A username topic accessLevel = Inr False"
  using assms by (simp add: verify_def Let_def at_def split: option.splits)

text \<open>
  C6. When \<open>verify\<close> reaches the loop, with \<open>isSharedSub\<close> and the topic \<open>topic'\<close> to match,
  its result is decided by the first rule of the list that matches (\<open>find\<close> gives the first
  in list order, so nothing after it counts): false when the subscription is shared and the
  rule is not flagged \<open>shared\<close>; otherwise the result of the member of \<open>verifyFunctions\<close> that
  the rule names, called with the match and the parts of the username, and true when the
  rule names none. With no matching rule the result is false. The order of the list is the
  order of registration: \<open>addACL\<close> puts a rule after those already there, and where a rule
  already there matches, a rule registered later changes nothing of the result.
\<close>
theorem first_matching_rule_decides:
  assumes "select_acls A username (if accessLevel = 2 then Pub else Sub) = Some aclList"
    and "scanned_topic username topic accessLevel = Some (isSharedSub, topic')"
  shows "verify db A username topic accessLevel =
     (case find (\<lambda>rule. acl_topic rule topic' \<noteq> None) aclList of
        None \<Rightarrow> Inr False
      | Some rule \<Rightarrow>
          if isSharedSub \<and> \<not> acl_shared rule then Inr False
          else (case acl_verify rule of
                  None \<Rightarrow> Inr True
                | Some name \<Rightarrow>
                    (case (if name \<noteq> [] then verifyFunctions db name else None) of
                       Some f \<Rightarrow> f (the (acl_topic rule topic')) (map Some (split_on CHR '':'' username))
                     | None \<Rightarrow> Inr True)))
     \<and> (\<forall>sc ac new. addACL sc ac new A sc ac = A sc ac @ [new])
     \<and> (\<forall>sc new. find (\<lambda>rule. acl_topic rule topic' \<noteq> None) aclList \<noteq> None \<longrightarrow>
           verify db (addACL sc (if accessLevel = 2 then Pub else Sub) new A) username topic
             accessLevel
           = verify db A username topic accessLevel)"
proof -
  let ?ac = "if accessLevel = 2 then Pub else Sub"
  let ?P = "\<lambda>rule. acl_topic rule topic' \<noteq> None"
  let ?parts = "map Some (split_on CHR '':'' username)"
  have first: "verify db A username topic accessLevel =
     (case find ?P aclList of
        None \<Rightarrow> Inr False
      | Some rule \<Rightarrow>
          if isSharedSub \<and> \<not> acl_shared rule then Inr False
          else (case acl_verify rule of
                  None \<Rightarrow> Inr True
                | Some name \<Rightarrow>
                    (case (if name \<noteq> [] then verifyFunctions db name else None) of
                       Some f \<Rightarrow> f (the (acl_topic rule topic')) ?parts
                     | None \<Rightarrow> Inr True)))"
    using assms by (simp add: verify_unfold scan_find decide_def split: option.splits)
  have later: "verify db (addACL sc ?ac new A) username topic accessLevel
        = verify db A username topic accessLevel"
    if found: "find ?P aclList \<noteq> None" for sc new
  proof -
    obtain rule where r: "find ?P aclList = Some rule" using found by auto
    have old: "verify db A username topic accessLevel
        = decide db isSharedSub rule (the (acl_topic rule topic')) ?parts"
      using assms r by (simp add: verify_unfold scan_find)
    from select_acls_addACL [OF assms(1), of sc new]
    show ?thesis
    proof
      assume "select_acls (addACL sc ?ac new A) username ?ac = Some aclList"
      then show ?thesis using assms(2) r old by (simp add: verify_unfold scan_find)
    next
      assume "select_acls (addACL sc ?ac new A) username ?ac = Some (aclList @ [new])"
      then show ?thesis using assms(2) old find_registered_later [OF r, of "[new]"]
        by (simp add: verify_unfold scan_find)
    qed
  qed
  show ?thesis using first later addACL_appends by blast
qed

subsection \<open>The properties at sample inputs\<close>

lemma sample_parse_simps:
  "sample_parse reply_text = Some reply_json"
  "sample_parse refusal_text = Some refusal_json"
  "sample_parse unknown_text = Some (JObj [(''state'', JStr ''unknown'')])"
  "sample_parse ''null'' = Some JNull"
  "sample_parse ''not json'' = None"
  by (simp_all add: sample_parse_def reply_text_def refusal_text_def unknown_text_def)

lemma sample_sent_fields:
  "sendCommandAwaitReply 1000 ''tok-1'' ''team1'' ''dev1'' ''startEditor''
     (JObj [(''token'', JStr ''s3cret'')]) None (new_handler db) = (0, sample_sent db)"
  "inFlightCommands (sample_sent db) ''tok-1'' = Some 0"
  "promises (sample_sent db) 0 = Some Pending"
  "timers (sample_sent db) 0 = Some 5000"
  "devices (sample_sent db) = db"
  "\<exists>mon. monitors (sample_sent db) 0 = Some mon \<and> command mon = ''startEditor''
     \<and> correlationData mon = ''tok-1'' \<and> \<not> resolved mon \<and> \<not> rejected mon"
  by (simp_all add: sample_sent_def sendCommandAwaitReply_def new_handler_def Let_def
      sendCommand_def sanitise_timeout_def DEFAULT_TIMEOUT_def newResponseMonitor_def)

theorem reply_resolves_monitor_witness:
  "\<exists>s'. handleCommandResponse sample_env
           \<lparr>response_id = ''dev1'', response_message = reply_text\<rparr> (sample_sent sample_db) = Inr s'
       \<and> promises s' 0 = Some (Fulfilled (JBool True))
       \<and> inFlightCommands s' ''tok-1'' = None
       \<and> handleCommandResponse sample_env
           \<lparr>response_id = ''dev1'', response_message = reply_text\<rparr> s' = Inr s'"
proof -
  let ?resp = "\<lparr>response_id = ''dev1'', response_message = reply_text\<rparr>"
  have reach: "run sample_env [] (new_handler sample_db) = Inr (new_handler sample_db)" by simp
  have later: "run sample_env [] (sample_sent sample_db) = Inr (sample_sent sample_db)" by simp
  have id: "response_id ?resp \<noteq> []"
    "devices (sample_sent sample_db) (response_id ?resp) = Some sample_device"
    by (simp_all add: sample_sent_fields sample_db_def)
  have parse: "JSON_parse sample_env (response_message ?resp) = Some reply_json"
    by (simp add: sample_env_def sample_parse_simps)
  have c: "get_prop reply_json ''command'' = Inr (Some (JStr ''startEditor''))"
    "''startEditor'' \<noteq> []"
    by (simp_all add: reply_json_def)
  have cd: "get_prop reply_json ''correlationData'' = Inr (Some (JStr ''tok-1''))"
    "truthy (JStr ''tok-1'')" "toPropertyKey (JStr ''tok-1'') = ''tok-1''"
    by (simp_all add: reply_json_def)
  have pl: "get_prop reply_json ''payload'' = Inr (Some (JBool True))" "truthy (JBool True)"
    by (simp_all add: reply_json_def)
  from reply_resolves_monitor [OF reach sample_sent_fields(1) later sample_sent_fields(2)
      id parse c cd pl]
  show ?thesis by blast
qed

text \<open>
  C1 as stated fails: the reply carries the token and the command of the monitor in flight,
  but its id is of no known device, so it is dropped and the promise stays pending.
\<close>
theorem reply_from_unknown_device_counterexample:
  "JSON_parse sample_env reply_text = Some reply_json
   \<and> get_prop reply_json ''command'' = Inr (Some (JStr ''startEditor''))
   \<and> get_prop reply_json ''correlationData'' = Inr (Some (JStr ''tok-1''))
   \<and> get_prop reply_json ''payload'' = Inr (Some (JBool True))
   \<and> inFlightCommands (sample_sent Map.empty) ''tok-1'' = Some 0
   \<and> map_option command (monitors (sample_sent Map.empty) 0) = Some ''startEditor''
   \<and> handleCommandResponse sample_env
        \<lparr>response_id = ''dev1'', response_message = reply_text\<rparr> (sample_sent Map.empty)
      = Inr (sample_sent Map.empty)
   \<and> promises (sample_sent Map.empty) 0 = Some Pending"
proof -
  have parse: "JSON_parse sample_env reply_text = Some reply_json"
    by (simp add: sample_env_def sample_parse_simps)
  have fields: "get_prop reply_json ''command'' = Inr (Some (JStr ''startEditor''))"
    "get_prop reply_json ''correlationData'' = Inr (Some (JStr ''tok-1''))"
    "get_prop reply_json ''payload'' = Inr (Some (JBool True))"
    by (simp_all add: reply_json_def)
  have nodev: "devices (sample_sent Map.empty) ''dev1'' = None"
    by (simp add: sample_sent_fields)
  have dropped: "handleCommandResponse sample_env
        \<lparr>response_id = ''dev1'', response_message = reply_text\<rparr> (sample_sent Map.empty)
      = Inr (sample_sent Map.empty)"
    using parse fields nodev by (simp add: handleCommandResponse_def)
  obtain mon where "monitors (sample_sent Map.empty) 0 = Some mon" "command mon = ''startEditor''"
    using sample_sent_fields(6) [of Map.empty] by blast
  then have m: "map_option command (monitors (sample_sent Map.empty) 0) = Some ''startEditor''"
    by simp
  show ?thesis using parse fields dropped m sample_sent_fields(2,3) by simp
qed

lemma quick_sent_fields:
  "sendCommandAwaitReply 1000 ''tok-1'' ''team1'' ''dev1'' ''startEditor''
     (JObj [(''token'', JStr ''s3cret'')]) (Some 250) (new_handler sample_db) = (0, quick_sent)"
  "inFlightCommands quick_sent ''tok-1'' = Some 0"
  "devices quick_sent ''dev1'' = Some sample_device"
  "\<exists>mon. monitors quick_sent 0 = Some mon \<and> command mon = ''startEditor''"
  by (simp_all add: quick_sent_def sendCommandAwaitReply_def new_handler_def Let_def
      sendCommand_def sanitise_timeout_def DEFAULT_TIMEOUT_def newResponseMonitor_def
      sample_db_def)

lemma stale_env_parse:
  "JSON_parse stale_env stale_text = Some stale_json"
  "JSON_parse stale_env reply_text = Some reply_json"
proof -
  have ne: "reply_text \<noteq> stale_text" by (simp add: stale_text_def reply_text_def)
  show "JSON_parse stale_env stale_text = Some stale_json"
    by (simp add: stale_env_def)
  show "JSON_parse stale_env reply_text = Some reply_json"
    using ne by (simp add: stale_env_def sample_parse_simps)
qed

theorem timeout_rejects_monitor_witness:
  "run stale_env [ResponseEvent \<lparr>response_id = ''dev1'', response_message = stale_text\<rparr>,
                  LogEvent \<lparr>log_id = ''dev1'', logs = ''line''\<rparr>] quick_sent
     = Inr (forwardLog \<lparr>log_id = ''dev1'', logs = ''line''\<rparr> quick_sent)
   \<and> promises (forwardLog \<lparr>log_id = ''dev1'', logs = ''line''\<rparr> quick_sent) 0 = Some Pending
   \<and> timers (forwardLog \<lparr>log_id = ''dev1'', logs = ''line''\<rparr> quick_sent) 0 = Some 250
   \<and> promises (fire_timer 0 (forwardLog \<lparr>log_id = ''dev1'', logs = ''line''\<rparr> quick_sent)) 0
       = Some (Rejected (Error ''Command timed out''))
   \<and> inFlightCommands (fire_timer 0 (forwardLog \<lparr>log_id = ''dev1'', logs = ''line''\<rparr> quick_sent))
        ''tok-1'' = None
   \<and> handleCommandResponse stale_env \<lparr>response_id = ''dev1'', response_message = reply_text\<rparr>
        (fire_timer 0 (forwardLog \<lparr>log_id = ''dev1'', logs = ''line''\<rparr> quick_sent))
       = Inr (fire_timer 0 (forwardLog \<lparr>log_id = ''dev1'', logs = ''line''\<rparr> quick_sent))"
proof -
  let ?stale = "\<lparr>response_id = ''dev1'', response_message = stale_text\<rparr>"
  let ?log = "\<lparr>log_id = ''dev1'', logs = ''line''\<rparr>"
  let ?resp = "\<lparr>response_id = ''dev1'', response_message = reply_text\<rparr>"
  let ?s = "forwardLog ?log quick_sent"
  obtain mon where m: "monitors quick_sent 0 = Some mon" "command mon = ''startEditor''"
    using quick_sent_fields(4) by blast
  have dropped: "handleCommandResponse stale_env ?stale quick_sent = Inr quick_sent"
    using m quick_sent_fields(2,3) stale_env_parse(1)
    by (simp add: handleCommandResponse_def stale_json_def)
  have reach: "run stale_env [] (new_handler sample_db) = Inr (new_handler sample_db)" by simp
  have later: "run stale_env [ResponseEvent ?stale, LogEvent ?log] quick_sent = Inr ?s"
    using dropped by simp
  have nomatch: "\<not> reply_matches stale_env ''tok-1'' ''startEditor'' ?stale"
    using stale_env_parse(1) by (simp add: reply_matches_def stale_json_def)
  have quiet: "\<forall>ev \<in> set [ResponseEvent ?stale, LogEvent ?log].
      undisturbed stale_env ''tok-1'' ''startEditor'' 0 ev"
    using nomatch by simp
  have late: "JSON_parse stale_env (response_message ?resp) = Some reply_json
      \<and> get_prop reply_json ''correlationData'' = Inr (Some (JStr ''tok-1''))
      \<and> toPropertyKey (JStr ''tok-1'') = ''tok-1''"
    using stale_env_parse(2) by (simp add: reply_json_def)
  from timeout_rejects_monitor [OF reach quick_sent_fields(1) later quiet]
  have "promises ?s 0 = Some Pending"
    "timers ?s 0 = Some (case Some 250 of None \<Rightarrow> 5000 | Some t \<Rightarrow> if 0 < t then t else (5000::int))"
    "promises (fire_timer 0 ?s) 0 = Some (Rejected (Error ''Command timed out''))"
    "inFlightCommands (fire_timer 0 ?s) ''tok-1'' = None"
    "\<forall>resp message token.
             JSON_parse stale_env (response_message resp) = Some message
           \<and> get_prop message ''correlationData'' = Inr (Some token)
           \<and> toPropertyKey token = ''tok-1''
           \<longrightarrow> handleCommandResponse stale_env resp (fire_timer 0 ?s) = Inr (fire_timer 0 ?s)"
    by blast+
  then show ?thesis using later late by auto
qed

theorem monitor_flags_exclusive_witness:
  "\<exists>s s' mon'. run sample_env [ResponseEvent \<lparr>response_id = ''dev1'', response_message = reply_text\<rparr>]
                   (sample_sent sample_db) = Inr s
     \<and> run sample_env [TimerFires 0] s = Inr s'
     \<and> monitors s' 0 = Some mon' \<and> resolved mon' \<and> \<not> rejected mon'
     \<and> promises s' 0 = Some (Fulfilled (JBool True)) \<and> fire_timer 0 s' = s'"
proof -
  let ?resp = "\<lparr>response_id = ''dev1'', response_message = reply_text\<rparr>"
  let ?s = "resolved_by 0 (JBool True) (sample_sent sample_db)"
  obtain mon0 where m0: "monitors (sample_sent sample_db) 0 = Some mon0"
    "command mon0 = ''startEditor''"
    using sample_sent_fields(6) [of sample_db] by blast
  have dev: "sample_db ''dev1'' = Some sample_device"
    by (simp add: sample_db_def)
  have h: "handleCommandResponse sample_env ?resp (sample_sent sample_db) = Inr ?s"
    by (rule response_resolves [where message = reply_json and token = "JStr ''tok-1''"
          and d = sample_device and mon = mon0])
       (simp_all add: sample_env_def sample_parse_simps reply_json_def sample_sent_fields
          dev m0)
  have reach: "run sample_env [] (new_handler sample_db) = Inr (new_handler sample_db)" by simp
  have later: "run sample_env [ResponseEvent ?resp] (sample_sent sample_db) = Inr ?s"
    using h by simp
  have after: "run sample_env [TimerFires 0] ?s = Inr (fire_timer 0 ?s)" by simp
  note f = resolved_by_fields [OF m0(1) sample_sent_fields(3), of "JBool True"]
  from monitor_flags_exclusive [OF reach sample_sent_fields(1) later after]
  obtain mon mon' where a: "monitors ?s 0 = Some mon" "monitors (fire_timer 0 ?s) 0 = Some mon'"
    and b: "resolved mon \<or> rejected mon \<longrightarrow>
            resolved mon' = resolved mon \<and> rejected mon' = rejected mon
            \<and> timers (fire_timer 0 ?s) 0 = None
            \<and> (\<forall>k. inFlightCommands (fire_timer 0 ?s) k \<noteq> Some 0)
            \<and> promises (fire_timer 0 ?s) 0 = promises ?s 0
            \<and> timer_callback 0 (fire_timer 0 ?s) = fire_timer 0 ?s
            \<and> fire_timer 0 (fire_timer 0 ?s) = fire_timer 0 ?s"
    and c: "\<not> (resolved mon' \<and> rejected mon')"
    by blast
  have r: "resolved mon" using a(1) f by auto
  have p: "promises ?s 0 = Some (Fulfilled (JBool True))" using f by simp
  show ?thesis using later after a(2) b c r p by auto
qed

theorem log_cache_bounded_fifo_witness:
  "\<exists>s info'. run sample_env [StreamLogs ''team1'' ''dev1'' 0] (new_handler sample_db) = Inr s
     \<and> deviceLogClients (fold forwardLog sample_logs s) ''dev1'' = Some info'
     \<and> length sample_logs = 11
     \<and> cache info' = tl sample_logs \<and> hd (cache info') = sample_logs ! 1
     \<and> logs (sample_logs ! 1) = ''x''"
proof -
  let ?s = "streamLogs ''team1'' ''dev1'' 0 (new_handler sample_db)"
  have reach: "run sample_env [StreamLogs ''team1'' ''dev1'' 0] (new_handler sample_db) = Inr ?s"
    by simp
  have sess: "deviceLogClients ?s ''dev1'' = Some \<lparr>cache = [], sockets = [0]\<rparr>"
    by (simp add: streamLogs_def new_handler_def sendCommand_def)
  have ids: "\<forall>l \<in> set sample_logs. log_id l = ''dev1''" by (simp add: sample_logs_def)
  have len: "length sample_logs = 11" by (simp add: sample_logs_def)
  have one: "logs (sample_logs ! 1) = ''x''" by (simp add: sample_logs_def)
  from log_cache_bounded_fifo [OF reach sess ids] len
  obtain info' where "deviceLogClients (fold forwardLog sample_logs ?s) ''dev1'' = Some info'"
    "cache info' = tl sample_logs" "hd (cache info') = sample_logs ! 1"
    by auto
  then show ?thesis using reach len one by blast
qed

theorem unknown_state_sends_one_update_witness:
  "publications (handleStatus sample_env \<lparr>status_id = ''dev1'', status_status = unknown_text\<rparr>
                   (new_handler sample_db)) =
     [\<lparr>pub_topic = ''ff/v1/team1/d/dev1/command'', pub_command = ''update'',
       pub_payload = UpdateData
         \<lparr>upd_project = JStr ''proj1'', upd_snapshot = JStr ''snap1'',
          upd_settings = JStr ''c0ffee'', upd_mode = ''autonomous'', upd_licensed = True\<rparr>\<rparr>]"
proof -
  let ?st = "\<lparr>status_id = ''dev1'', status_status = unknown_text\<rparr>"
  have a: "status_id ?st \<noteq> []" by simp
  have b: "devices (new_handler sample_db) (status_id ?st) = Some sample_device"
    by (simp add: new_handler_def sample_db_def)
  have c: "status_status ?st \<noteq> []" by (simp add: unknown_text_def)
  have d: "JSON_parse sample_env (status_status ?st) = Some (JObj [(''state'', JStr ''unknown'')])"
    by (simp add: sample_env_def sample_parse_simps)
  have e: "get_prop (JObj [(''state'', JStr ''unknown'')]) ''state'' = Inr (Some (JStr ''unknown''))"
    by simp
  have f: "app_comms sample_env" by (simp add: sample_env_def)
  from unknown_state_sends_one_update [OF a b c d e f]
  show ?thesis by (simp add: new_handler_def sample_device_def or_null_def sample_env_def)
qed

theorem vanished_snapshot_keeps_active_witness:
  "\<exists>saved. updateState sample_env sample_device
              (JObj [(''state'', JStr ''running''), (''snapshot'', JStr ''snap9'')]) = Inr saved
     \<and> activeSnapshotId saved = Some [7] \<and> dev_state saved = Some (JStr ''running'')
     \<and> agentVersion saved = None \<and> lastSeenAt saved = CURRENT_TIMESTAMP"
proof -
  let ?st = "JObj [(''state'', JStr ''running''), (''snapshot'', JStr ''snap9'')]"
  have a: "get_prop ?st ''snapshot'' = Inr (Some (JStr ''snap9''))" by simp
  have b: "truthy (JStr ''snap9'')" by simp
  have c: "decodeHashid sample_env (JStr ''snap9'') = [] \<or> \<not> snapshot_byId sample_env (JStr ''snap9'')"
    by (simp add: sample_env_def)
  from vanished_snapshot_keeps_active [OF a b c, of sample_device]
  show ?thesis by (simp add: read_prop_def sample_device_def)
qed

theorem falsy_payload_reply_dropped_witness:
  "handleCommandResponse sample_env \<lparr>response_id = ''dev1'', response_message = refusal_text\<rparr>
     (sample_sent sample_db) = Inr (sample_sent sample_db)
   \<and> promises (sample_sent sample_db) 0 = Some Pending
   \<and> promises (fire_timer 0 (sample_sent sample_db)) 0
       = Some (Rejected (Error ''Command timed out''))"
proof -
  let ?resp = "\<lparr>response_id = ''dev1'', response_message = refusal_text\<rparr>"
  have reach: "run sample_env [] (new_handler sample_db) = Inr (new_handler sample_db)" by simp
  have later: "run sample_env [] (sample_sent sample_db) = Inr (sample_sent sample_db)" by simp
  have parse: "JSON_parse sample_env (response_message ?resp) = Some refusal_json"
    by (simp add: sample_env_def sample_parse_simps)
  have cd: "get_prop refusal_json ''correlationData'' = Inr (Some (JStr ''tok-1''))"
    "toPropertyKey (JStr ''tok-1'') = ''tok-1''"
    by (simp_all add: refusal_json_def)
  have pl: "get_prop refusal_json ''payload'' = Inr (Some (JBool False))"
    "JBool False = JBool False \<or> JBool False = JNum ''0'' \<or> JBool False = JStr []
       \<or> JBool False = JNull"
    by (simp_all add: refusal_json_def)
  from falsy_payload_reply_dropped [OF reach sample_sent_fields(1) later sample_sent_fields(2)
      parse cd pl]
  show ?thesis by simp
qed

text \<open>
  C3 (the code differs). A reply whose message is not JSON makes \<open>JSON.parse\<close> throw, and the
  message \<open>null\<close> makes the read of \<open>message.command\<close> throw: \<open>handleCommandResponse\<close> has no
  \<open>try\<close> around either, unlike \<open>handleStatus\<close>, so the exception leaves the handler.
\<close>
theorem malformed_reply_throws:
  "handleCommandResponse sample_env \<lparr>response_id = ''dev1'', response_message = ''not json''\<rparr>
     (sample_sent sample_db) = Inl SyntaxError
   \<and> handleCommandResponse sample_env \<lparr>response_id = ''dev1'', response_message = ''null''\<rparr>
     (sample_sent sample_db) = Inl TypeError
   \<and> handleStatus sample_env \<lparr>status_id = ''dev1'', status_status = ''not json''\<rparr>
     (sample_sent sample_db) = sample_sent sample_db"
  by (simp add: handleCommandResponse_def handleStatus_def sample_env_def sample_parse_simps
      sample_sent_fields sample_db_def)

theorem malformed_reply_throws_witness:
  "handleCommandResponse sample_env \<lparr>response_id = ''dev1'', response_message = ''not json''\<rparr>
     (sample_sent sample_db) \<noteq> Inr (sample_sent sample_db)"
  using malformed_reply_throws by simp

theorem shared_group_mismatch_denied_witness:
  "verify sample_acl_db
       (addACL Device Sub
          \<lparr>acl_topic = topic_exec True ''p'' ''command'', acl_verify = None, acl_shared = True\<rparr> ACLS)
       ''device:team1:dev1'' ''$share/dev2/ff/v1/team1/p/proj1/command'' 1 = Inr False"
proof -
  have a: "(1::int) \<noteq> 2" by simp
  have b: "SHARED_SUB_exec ''$share/dev2/ff/v1/team1/p/proj1/command'' =
      Some [Some ''$share/dev2/ff/v1/team1/p/proj1/command'', Some ''dev2'',
            Some ''ff/v1/team1/p/proj1/command'']"
    by (simp add: SHARED_SUB_exec_def line_terminator_def)
  have c: "Some ''dev2'' \<noteq> at (map Some (split_on CHR '':'' ''device:team1:dev1'')) 2"
    by (simp add: at_def)
  from shared_group_mismatch_denied [OF a b c] show ?thesis .
qed

theorem first_matching_rule_decides_witness:
  "acl_topic (checked_rule ''d'' ''command'' ''checkTeamAndObjectIds'') ''ff/v1/team1/d/dev2/command''
     \<noteq> None
   \<and> acl_topic late_rule ''ff/v1/team1/d/dev2/command'' \<noteq> None
   \<and> addACL Device Sub late_rule ACLS Device Sub =
       [checked_rule ''d'' ''command'' ''checkTeamAndObjectIds'',
        checked_rule ''p'' ''command'' ''checkDeviceAssignedToProject'', late_rule]
   \<and> verify sample_acl_db (addACL Device Sub late_rule ACLS) ''device:team1:dev1''
        ''ff/v1/team1/d/dev2/command'' 1 = Inr False
   \<and> verify sample_acl_db (addACL Device Sub late_rule ACLS) ''device:team1:dev1''
        ''ff/v1/team1/d/dev1/command'' 1 = Inr True
   \<and> verify sample_acl_db ACLS ''device:team1:dev1'' ''ff/v1/team1/d/dev2/command'' 1 = Inr False"
proof -
  let ?A = "addACL Device Sub late_rule ACLS"
  let ?core = "checked_rule ''d'' ''command'' ''checkTeamAndObjectIds''"
  have list: "?A Device Sub =
       [?core, checked_rule ''p'' ''command'' ''checkDeviceAssignedToProject'', late_rule]"
    by (simp add: addACL_def)
  have sel: "select_acls ?A ''device:team1:dev1'' (if (1::int) = 2 then Pub else Sub)
      = Some [?core, checked_rule ''p'' ''command'' ''checkDeviceAssignedToProject'', late_rule]"
    by (simp add: select_acls_def addACL_def)
  have sel0: "select_acls ACLS ''device:team1:dev1'' (if (1::int) = 2 then Pub else Sub)
      = Some (ACLS Device Sub)"
    by (simp add: select_acls_def)
  have t1: "scanned_topic ''device:team1:dev1'' ''ff/v1/team1/d/dev1/command'' 1
      = Some (False, ''ff/v1/team1/d/dev1/command'')"
    by (simp add: scanned_topic_def SHARED_SUB_exec_def)
  have t2: "scanned_topic ''device:team1:dev1'' ''ff/v1/team1/d/dev2/command'' 1
      = Some (False, ''ff/v1/team1/d/dev2/command'')"
    by (simp add: scanned_topic_def SHARED_SUB_exec_def)
  have m1: "topic_exec True ''d'' ''command'' ''ff/v1/team1/d/dev1/command''
      = Some [Some ''ff/v1/team1/d/dev1/command'', Some ''team1'', Some ''dev1'']"
    by (simp add: topic_exec_def)
  have m2: "topic_exec True ''d'' ''command'' ''ff/v1/team1/d/dev2/command''
      = Some [Some ''ff/v1/team1/d/dev2/command'', Some ''team1'', Some ''dev2'']"
    by (simp add: topic_exec_def)
  have m3: "topic_exec False ''d'' ''command'' ''ff/v1/team1/d/dev2/command''
      = Some [Some ''ff/v1/team1/d/dev2/command'']"
    by (simp add: topic_exec_def)
  have u: "map Some (split_on CHR '':'' ''device:team1:dev1'')
      = [Some ''device'', Some ''team1'', Some ''dev1'']"
    by simp
  have both: "acl_topic ?core ''ff/v1/team1/d/dev2/command'' \<noteq> None"
    "acl_topic late_rule ''ff/v1/team1/d/dev2/command'' \<noteq> None"
    by (simp_all add: checked_rule_def late_rule_def m2 m3)
  have v2: "verify sample_acl_db ?A ''device:team1:dev1'' ''ff/v1/team1/d/dev2/command'' 1
      = Inr False"
    using first_matching_rule_decides [OF sel t2, of sample_acl_db]
    by (simp add: checked_rule_def m2 u verifyFunctions_def checkTeamAndObjectIds_def at_def)
  have v1: "verify sample_acl_db ?A ''device:team1:dev1'' ''ff/v1/team1/d/dev1/command'' 1
      = Inr True"
    using first_matching_rule_decides [OF sel t1, of sample_acl_db]
    by (simp add: checked_rule_def m1 u verifyFunctions_def checkTeamAndObjectIds_def at_def)
  have found: "find (\<lambda>rule. acl_topic rule ''ff/v1/team1/d/dev2/command'' \<noteq> None) (ACLS Device Sub)
      \<noteq> None"
    by (simp add: checked_rule_def m2)
  have v0: "verify sample_acl_db ACLS ''device:team1:dev1'' ''ff/v1/team1/d/dev2/command'' 1
      = Inr False"
    using first_matching_rule_decides [OF sel0 t2, of sample_acl_db] found v2 by auto
  show ?thesis using both list v2 v1 v0 by simp
qed

lemma inherited_members_are_called:
  "verify sample_acl_db
     (addACL Forge_platform Pub
        \<lparr>acl_topic = topic_exec False ''x'' ''command'', acl_verify = Some ''hasOwnProperty'',
         acl_shared = False\<rparr> ACLS)
     ''forge_platform'' ''ff/v1/team1/x/obj/command'' 2 = Inr False
   \<and> verify sample_acl_db
     (addACL Forge_platform Pub
        \<lparr>acl_topic = topic_exec False ''x'' ''command'', acl_verify = Some ''__proto__'',
         acl_shared = False\<rparr> ACLS)
     ''forge_platform'' ''ff/v1/team1/x/obj/command'' 2 = Inl TypeError
   \<and> verify sample_acl_db
     (addACL Forge_platform Pub
        \<lparr>acl_topic = topic_exec False ''x'' ''command'', acl_verify = Some ''noSuchCheck'',
         acl_shared = False\<rparr> ACLS)
     ''forge_platform'' ''ff/v1/team1/x/obj/command'' 2 = Inr True"
proof -
  have m: "topic_exec False ''x'' ''command'' ''ff/v1/team1/x/obj/command''
      = Some [Some ''ff/v1/team1/x/obj/command'']"
    "topic_exec False ''l'' ''command'' ''ff/v1/team1/x/obj/command'' = None"
    "topic_exec False ''d'' ''command'' ''ff/v1/team1/x/obj/command'' = None"
    "topic_exec False ''p'' ''command'' ''ff/v1/team1/x/obj/command'' = None"
    by (simp_all add: topic_exec_def)
  show ?thesis
    by (simp add: verify_def select_acls_def addACL_def plain_rule_def m decide_def
        verifyFunctions_def Object_prototype_def match_key_def own_names_def)
qed

end
